theory Spec2Isabelle
  imports Main "HOL-Library.Sublist"
begin

section \<open>JavaScript values\<close>

text \<open>
  The script of \<^verbatim>\<open>static/app.js\<close> reads JSON records from the server and writes
  their fields into markup. The records are flat, as the endpoints send them: a field
  is a JSON scalar or is missing, and reading a missing property gives
  \<^verbatim>\<open>undefined\<close>. The script never calculates with a number: it only converts it to a
  string and tests whether it is truthy. A number is therefore carried by its decimal
  rendering, the string that the conversion to string gives (both zeros render as
  \<^verbatim>\<open>0\<close>).
\<close>

datatype jsval = JUndefined | JNull | JBool bool | JNum string | JStr string

type_synonym jsobj = "string \<rightharpoonup> jsval"

text \<open>Property access \<^verbatim>\<open>obj.key\<close> on a record.\<close>

definition get :: "jsobj \<Rightarrow> string \<Rightarrow> jsval" where
  "get obj key = (case obj key of None \<Rightarrow> JUndefined | Some v \<Rightarrow> v)"

text \<open>
  The conversion to string of a template substitution \<^verbatim>\<open>${v}\<close>, and of the message
  given to \<^verbatim>\<open>new Error\<close> (which the script never calls with \<^verbatim>\<open>undefined\<close>).
\<close>

fun to_string :: "jsval \<Rightarrow> string" where
  "to_string JUndefined = ''undefined''"
| "to_string JNull = ''null''"
| "to_string (JBool b) = (if b then ''true'' else ''false'')"
| "to_string (JNum n) = n"
| "to_string (JStr s) = s"

text \<open>The conversion to boolean of \<^verbatim>\<open>||\<close> and \<^verbatim>\<open>!\<close>.\<close>

fun truthy :: "jsval \<Rightarrow> bool" where
  "truthy JUndefined = False"
| "truthy JNull = False"
| "truthy (JBool b) = b"
| "truthy (JNum n) = (n \<noteq> ''0'' \<and> n \<noteq> ''NaN'')"
| "truthy (JStr s) = (s \<noteq> [])"

definition js_or :: "jsval \<Rightarrow> jsval \<Rightarrow> jsval" where
  "js_or a b = (if truthy a then a else b)"

datatype error = Error (message: string) | TypeError (message: string) | SyntaxError (message: string)

section \<open>The page\<close>

text \<open>
  An element is known by the markup last assigned to its \<^verbatim>\<open>innerHTML\<close> (which the
  browser parses into its content) and by the elements appended to it since. Assigning
  \<^verbatim>\<open>innerHTML\<close> replaces all of the content.
\<close>

datatype element = Element (tagName: string) (innerHTML: string) (appended: "element list")

definition createElement :: "string \<Rightarrow> element" where
  "createElement t = Element t [] []"

fun set_innerHTML :: "string \<Rightarrow> element \<Rightarrow> element" where
  "set_innerHTML html (Element t _ _) = Element t html []"

fun appendChild :: "element \<Rightarrow> element \<Rightarrow> element" where
  "appendChild child (Element t html cs) = Element t html (cs @ [child])"

text \<open>A node of the message host: the \<^verbatim>\<open>div\<close> that \<^verbatim>\<open>showMessage\<close> creates, with its identity.\<close>

record flash =
  ident :: nat
  className :: string
  textContent :: string

datatype routine = Overview | Patients | Appointments | Bills

text \<open>
  A form has its controls' current entries (name and value, as \<^verbatim>\<open>FormData\<close> lists
  them), the values that \<^verbatim>\<open>reset()\<close> restores, and its submit listeners: the endpoint
  and the callback that \<^verbatim>\<open>wireForm\<close> closed over.
\<close>

record form =
  entries :: "(string \<times> string) list"
  defaults :: "(string \<times> string) list"
  listeners :: "(string \<times> routine option) list"

text \<open>
  A request as \<^verbatim>\<open>fetch\<close> is given it. The body is the payload whose JSON text is sent.
  A response has its status flag and what \<^verbatim>\<open>response.json()\<close> settles with: the
  parsed body, or the error of a body that is not JSON.
\<close>

record request =
  req_url :: string
  req_method :: string
  req_headers :: "(string \<times> string) list"
  req_body :: "jsobj option"

record 'a response =
  ok :: bool
  json :: "error + 'a"

text \<open>
  An async function suspended at its \<^verbatim>\<open>await\<close>: a refresh routine, or the submit
  listener of the form a selector finds, with its callback.
\<close>

datatype pending =
    Refreshing routine
  | Submitting string "routine option"

text \<open>
  The page: the children of the message host (\<open>None\<close> when the document has no
  \<^verbatim>\<open>js-messages\<close> element), the form each selector finds, the table bodies and the
  text of the summary elements by element id, the pending timeouts (when due, in
  milliseconds, and the node to remove), the intervals (period, when next due, routine),
  the requests in flight, the time and the next unused node identity.
\<close>

record page_state =
  messageHost :: "flash list option"
  forms :: "string \<rightharpoonup> form"
  tables :: "string \<rightharpoonup> element"
  texts :: "string \<rightharpoonup> string"
  timeouts :: "(nat \<times> nat) list"
  intervals :: "(nat \<times> nat \<times> routine) list"
  inflight :: "(request \<times> pending) list"
  clock :: nat
  fresh :: nat

section \<open>Notifier\<close>

text \<open>Every call in the script passes \<open>kind\<close>, so its default is never used.\<close>

definition showMessage :: "string \<Rightarrow> string \<Rightarrow> page_state \<Rightarrow> page_state" where
  "showMessage text kind s =
     (case messageHost s of
        None \<Rightarrow> s
      | Some host \<Rightarrow>
          (let item = \<lparr>ident = fresh s, className = ''flash '' @ kind, textContent = text\<rparr> in
           s\<lparr>messageHost := Some (host @ [item]),
             timeouts := timeouts s @ [(clock s + 4000, ident item)],
             fresh := Suc (fresh s)\<rparr>))"

text \<open>The timeout's callback, \<^verbatim>\<open>item.remove()\<close>.\<close>

definition remove_item :: "nat \<Rightarrow> page_state \<Rightarrow> page_state" where
  "remove_item i s =
     s\<lparr>messageHost := map_option (filter (\<lambda>item. ident item \<noteq> i)) (messageHost s)\<rparr>"

section \<open>HTTP client helpers\<close>

text \<open>
  \<open>fetch\<close> is the network: what the call settles with, a response or the error of a
  request that got none.
\<close>

definition post_request :: "string \<Rightarrow> jsobj \<Rightarrow> request" where
  "post_request url payload =
     \<lparr>req_url = url, req_method = ''POST'',
      req_headers = [(''Content-Type'', ''application/json'')],
      req_body = Some payload\<rparr>"

definition get_request :: "string \<Rightarrow> request" where
  "get_request url = \<lparr>req_url = url, req_method = ''GET'', req_headers = [], req_body = None\<rparr>"

definition postJSON ::
  "(request \<Rightarrow> error + jsobj response) \<Rightarrow> string \<Rightarrow> jsobj \<Rightarrow> error + jsobj" where
  "postJSON fetch url payload =
     (case fetch (post_request url payload) of
        Inl e \<Rightarrow> Inl e
      | Inr response \<Rightarrow>
          (case json response of
             Inl e \<Rightarrow> Inl e
           | Inr data \<Rightarrow>
               if \<not> ok response then
                 Inl (Error (to_string (js_or (get data ''error'') (JStr ''Request failed''))))
               else Inr data))"

definition getJSON :: "(request \<Rightarrow> error + 'a response) \<Rightarrow> string \<Rightarrow> error + 'a" where
  "getJSON fetch url =
     (case fetch (get_request url) of
        Inl e \<Rightarrow> Inl e
      | Inr response \<Rightarrow>
          if \<not> ok response then Inl (Error ''Request failed'') else json response)"

section \<open>Table renderers\<close>

definition patient_row :: "jsobj \<Rightarrow> string" where
  \<open>patient_row patient =
     ''\<newline>        <td>'' @ to_string (get patient ''id'') @ ''</td>'' @
     ''\<newline>        <td>'' @ to_string (get patient ''name'') @ ''</td>'' @
     ''\<newline>        <td>'' @ to_string (get patient ''age'') @ ''</td>'' @
     ''\<newline>        <td>'' @ to_string (get patient ''gender'') @ ''</td>'' @
     ''\<newline>        <td>'' @ to_string (js_or (get patient ''contact'') (JStr [])) @ ''</td>'' @
     ''\<newline>        <td>'' @ to_string (get patient ''created_at'') @ ''</td>'' @
     ''\<newline>      ''\<close>

definition renderPatients :: "jsobj list \<Rightarrow> page_state \<Rightarrow> page_state" where
  \<open>renderPatients patients s =
     (case tables s ''patients-body'' of
        None \<Rightarrow> s
      | Some body0 \<Rightarrow>
          (let body = set_innerHTML [] body0 in
           if length patients = 0 then
             s\<lparr>tables := (tables s)(''patients-body'' \<mapsto>
                 set_innerHTML ''<tr><td colspan="6" class="muted">No patients yet.</td></tr>'' body)\<rparr>
           else
             s\<lparr>tables := (tables s)(''patients-body'' \<mapsto>
                 foldl (\<lambda>body patient.
                          appendChild (set_innerHTML (patient_row patient) (createElement ''tr'')) body)
                       body patients)\<rparr>))\<close>

definition appointment_row :: "jsobj \<Rightarrow> string" where
  \<open>appointment_row appointment =
     ''\<newline>        <td>'' @ to_string (get appointment ''id'') @ ''</td>'' @
     ''\<newline>        <td>'' @ to_string (get appointment ''patient_name'') @ '' ('' @
                          to_string (get appointment ''patient_id'') @ '')</td>'' @
     ''\<newline>        <td>'' @ to_string (get appointment ''date'') @ ''</td>'' @
     ''\<newline>        <td>'' @ to_string (get appointment ''time'') @ ''</td>'' @
     ''\<newline>        <td>'' @ to_string (get appointment ''reason'') @ ''</td>'' @
     ''\<newline>        <td>'' @ to_string (get appointment ''status'') @ ''</td>'' @
     ''\<newline>      ''\<close>

definition renderAppointments :: "jsobj list \<Rightarrow> page_state \<Rightarrow> page_state" where
  \<open>renderAppointments appointments s =
     (case tables s ''appointments-body'' of
        None \<Rightarrow> s
      | Some body0 \<Rightarrow>
          (let body = set_innerHTML [] body0 in
           if length appointments = 0 then
             s\<lparr>tables := (tables s)(''appointments-body'' \<mapsto>
                 set_innerHTML ''<tr><td colspan="6" class="muted">No appointments yet.</td></tr>'' body)\<rparr>
           else
             s\<lparr>tables := (tables s)(''appointments-body'' \<mapsto>
                 foldl (\<lambda>body appointment.
                          appendChild (set_innerHTML (appointment_row appointment) (createElement ''tr'')) body)
                       body appointments)\<rparr>))\<close>

definition bill_row :: "jsobj \<Rightarrow> string" where
  \<open>bill_row bill =
     ''\<newline>        <td>'' @ to_string (get bill ''id'') @ ''</td>'' @
     ''\<newline>        <td>'' @ to_string (get bill ''patient_name'') @ '' ('' @
                          to_string (get bill ''patient_id'') @ '')</td>'' @
     ''\<newline>        <td>'' @ to_string (get bill ''description'') @ ''</td>'' @
     ''\<newline>        <td>'' @ to_string (get bill ''amount'') @ ''</td>'' @
     ''\<newline>        <td>'' @ to_string (get bill ''status'') @ ''</td>'' @
     ''\<newline>        <td>'' @ to_string (get bill ''created_at'') @ ''</td>'' @
     ''\<newline>      ''\<close>

definition renderBills :: "jsobj list \<Rightarrow> page_state \<Rightarrow> page_state" where
  \<open>renderBills bills s =
     (case tables s ''billing-body'' of
        None \<Rightarrow> s
      | Some body0 \<Rightarrow>
          (let body = set_innerHTML [] body0 in
           if length bills = 0 then
             s\<lparr>tables := (tables s)(''billing-body'' \<mapsto>
                 set_innerHTML ''<tr><td colspan="6" class="muted">No billing records yet.</td></tr>'' body)\<rparr>
           else
             s\<lparr>tables := (tables s)(''billing-body'' \<mapsto>
                 foldl (\<lambda>body bill.
                          appendChild (set_innerHTML (bill_row bill) (createElement ''tr'')) body)
                       body bills)\<rparr>))\<close>

section \<open>Async routines\<close>

text \<open>
  An async function runs in two parts. Its call runs up to the \<^verbatim>\<open>await\<close>: it issues the
  request and suspends. When the request settles, the rest runs on the page as it is
  then. For a refresh routine the first part is \<open>start\<close>; the definition named after
  the routine is the rest, where \<open>fetch\<close> gives what the request settled with.
\<close>

fun endpoint_of :: "routine \<Rightarrow> string" where
  "endpoint_of Overview = ''/api/overview''"
| "endpoint_of Patients = ''/api/patients''"
| "endpoint_of Appointments = ''/api/appointments''"
| "endpoint_of Bills = ''/api/bills''"

definition start :: "routine \<Rightarrow> page_state \<Rightarrow> page_state" where
  "start r s = s\<lparr>inflight := inflight s @ [(get_request (endpoint_of r), Refreshing r)]\<rparr>"

section \<open>Form binder\<close>

text \<open>\<^verbatim>\<open>Object.fromEntries(new FormData(form).entries())\<close>: a later entry of a name wins.\<close>

definition fromEntries :: "(string \<times> string) list \<Rightarrow> jsobj" where
  "fromEntries es = foldl (\<lambda>obj (name, v). obj(name \<mapsto> JStr v)) Map.empty es"

definition reset :: "form \<Rightarrow> form" where
  "reset form = form\<lparr>entries := defaults form\<rparr>"

definition wireForm :: "string \<Rightarrow> string \<Rightarrow> routine option \<Rightarrow> page_state \<Rightarrow> page_state" where
  "wireForm formSelector endpoint onSuccess s =
     (case forms s formSelector of
        None \<Rightarrow> s
      | Some form \<Rightarrow>
          s\<lparr>forms := (forms s)(formSelector \<mapsto>
               form\<lparr>listeners := listeners form @ [(endpoint, onSuccess)]\<rparr>)\<rparr>)"

text \<open>The submit listener up to its \<^verbatim>\<open>await\<close>: it reads the payload and posts it.\<close>

definition submit_begin :: "string \<Rightarrow> string \<Rightarrow> routine option \<Rightarrow> page_state \<Rightarrow> page_state" where
  "submit_begin formSelector endpoint onSuccess s =
     (case forms s formSelector of
        None \<Rightarrow> s
      | Some form \<Rightarrow>
          (let payload = fromEntries (entries form) in
           s\<lparr>inflight := inflight s @
                [(post_request endpoint payload, Submitting formSelector onSuccess)]\<rparr>))"

text \<open>
  The rest of the submit listener, from \<^verbatim>\<open>await postJSON(endpoint, payload)\<close> on. The
  callbacks that the script passes are async functions: calling one starts it and
  does not throw.
\<close>

definition submit_listener ::
  "(request \<Rightarrow> error + jsobj response) \<Rightarrow> string \<Rightarrow> string \<Rightarrow> jsobj \<Rightarrow>
   (jsobj \<Rightarrow> page_state \<Rightarrow> page_state) option \<Rightarrow> page_state \<Rightarrow> page_state" where
  "submit_listener fetch formSelector endpoint payload onSuccess s =
     (case postJSON fetch endpoint payload of
        Inr created \<Rightarrow>
          (let s1 = s\<lparr>forms := (case forms s formSelector of
                                     None \<Rightarrow> forms s
                                   | Some form \<Rightarrow> (forms s)(formSelector \<mapsto> reset form))\<rparr>;
               s2 = showMessage ''Saved successfully.'' ''success'' s1
           in case onSuccess of None \<Rightarrow> s2 | Some callback \<Rightarrow> callback created s2)
      | Inl error \<Rightarrow> showMessage (message error) ''error'' s)"

section \<open>Refresh routines\<close>

text \<open>
  The value assigned to \<^verbatim>\<open>node.textContent\<close>: the attribute is a nullable string, so
  \<^verbatim>\<open>undefined\<close> and \<^verbatim>\<open>null\<close> give the empty text.
\<close>

fun text_of :: "jsval \<Rightarrow> string" where
  "text_of JUndefined = []"
| "text_of JNull = []"
| "text_of v = to_string v"

definition refreshOverview :: "(request \<Rightarrow> error + jsobj response) \<Rightarrow> page_state \<Rightarrow> page_state" where
  "refreshOverview fetch s =
     (case getJSON fetch ''/api/overview'' of
        Inr data \<Rightarrow>
          foldl (\<lambda>s (node_id, v).
                   case texts s node_id of
                     None \<Rightarrow> s
                   | Some node \<Rightarrow> s\<lparr>texts := (texts s)(node_id \<mapsto> text_of v)\<rparr>)
                s
                [(''total-patients'', get data ''patients''),
                 (''total-appointments'', get data ''appointments''),
                 (''total-bills'', get data ''bills''),
                 (''total-unpaid'', get data ''unpaid'')]
      | Inl error \<Rightarrow> showMessage ''Unable to refresh overview.'' ''error'' s)"

definition refreshPatients ::
  "(request \<Rightarrow> error + jsobj list response) \<Rightarrow> page_state \<Rightarrow> page_state" where
  "refreshPatients fetch s =
     (case getJSON fetch ''/api/patients'' of
        Inr patients \<Rightarrow> renderPatients patients s
      | Inl error \<Rightarrow> showMessage ''Unable to refresh patients.'' ''error'' s)"

definition refreshAppointments ::
  "(request \<Rightarrow> error + jsobj list response) \<Rightarrow> page_state \<Rightarrow> page_state" where
  "refreshAppointments fetch s =
     (case getJSON fetch ''/api/appointments'' of
        Inr appointments \<Rightarrow> renderAppointments appointments s
      | Inl error \<Rightarrow> showMessage ''Unable to refresh appointments.'' ''error'' s)"

definition refreshBills ::
  "(request \<Rightarrow> error + jsobj list response) \<Rightarrow> page_state \<Rightarrow> page_state" where
  "refreshBills fetch s =
     (case getJSON fetch ''/api/bills'' of
        Inr bills \<Rightarrow> renderBills bills s
      | Inl error \<Rightarrow> showMessage ''Unable to refresh billing records.'' ''error'' s)"

section \<open>Page bootstrap\<close>

definition setInterval :: "routine \<Rightarrow> nat \<Rightarrow> page_state \<Rightarrow> page_state" where
  "setInterval r ms s = s\<lparr>intervals := intervals s @ [(ms, clock s + ms, r)]\<rparr>"

text \<open>
  The body of the script after its definitions, on the \<^verbatim>\<open>data-page\<close> attribute of the
  document body (\<open>None\<close> when it has none).
\<close>

definition bootstrap :: "string option \<Rightarrow> page_state \<Rightarrow> page_state" where
  "bootstrap dataset_page s0 =
     (let page = (case dataset_page of None \<Rightarrow> [] | Some p \<Rightarrow> if p = [] then [] else p);
          s1 = (if page = ''index''
                then setInterval Overview 5000 (start Overview s0) else s0);
          s2 = (if page = ''patients''
                then setInterval Patients 7000
                       (start Patients (wireForm ''form'' ''/api/patients'' (Some Patients) s1))
                else s1);
          s3 = (if page = ''appointments''
                then setInterval Appointments 7000
                       (start Appointments (wireForm ''form'' ''/api/appointments'' (Some Appointments) s2))
                else s2);
          s4 = (if page = ''billing''
                then setInterval Bills 7000
                       (start Bills (wireForm ''form'' ''/api/bills'' (Some Bills) s3))
                else s3)
      in s4)"

section \<open>The event loop\<close>

text \<open>
  What happens to a loaded page: time passes, the user edits or submits a form, a
  request in flight settles. Time passes up to the next instant at which a timer is
  due and the timers due then run: a timeout once, an interval again a period later.
  The endpoints answer with the shapes of their contract: a list of records for the
  three collections, a record for the overview and for a post.
\<close>

datatype event =
    Advance nat
  | Input string "(string \<times> string) list"
  | Submit string
  | ListSettled nat "error + jsobj list response"
  | RecordSettled nat "error + jsobj response"

definition next_instant :: "nat \<Rightarrow> page_state \<Rightarrow> nat" where
  "next_instant d s =
     max (clock s)
         (fold min (map fst (timeouts s) @ map (\<lambda>(period, due, r). due) (intervals s))
               (clock s + d))"

definition fire_timeouts :: "page_state \<Rightarrow> page_state" where
  "fire_timeouts s =
     foldl (\<lambda>s (due, i). remove_item i s)
           (s\<lparr>timeouts := filter (\<lambda>(due, i). \<not> due \<le> clock s) (timeouts s)\<rparr>)
           (filter (\<lambda>(due, i). due \<le> clock s) (timeouts s))"

definition fire_intervals :: "page_state \<Rightarrow> page_state" where
  "fire_intervals s =
     foldl (\<lambda>s (period, due, r). start r s)
           (s\<lparr>intervals := map (\<lambda>(period, due, r).
                                   if due \<le> clock s then (period, clock s + period, r)
                                   else (period, due, r))
                                (intervals s)\<rparr>)
           (filter (\<lambda>(period, due, r). due \<le> clock s) (intervals s))"

definition without :: "nat \<Rightarrow> 'a list \<Rightarrow> 'a list" where
  "without i xs = take i xs @ drop (Suc i) xs"

definition callback_of :: "routine option \<Rightarrow> (jsobj \<Rightarrow> page_state \<Rightarrow> page_state) option" where
  "callback_of onSuccess = map_option (\<lambda>r created. start r) onSuccess"

fun resume_list ::
  "pending \<Rightarrow> (request \<Rightarrow> error + jsobj list response) \<Rightarrow> page_state \<Rightarrow> page_state" where
  "resume_list (Refreshing Patients) fetch s = refreshPatients fetch s"
| "resume_list (Refreshing Appointments) fetch s = refreshAppointments fetch s"
| "resume_list (Refreshing Bills) fetch s = refreshBills fetch s"
| "resume_list _ fetch s = s"

fun resume_record ::
  "request \<Rightarrow> pending \<Rightarrow> (request \<Rightarrow> error + jsobj response) \<Rightarrow> page_state \<Rightarrow> page_state" where
  "resume_record req (Refreshing Overview) fetch s = refreshOverview fetch s"
| "resume_record req (Submitting formSelector onSuccess) fetch s =
     submit_listener fetch formSelector (req_url req)
       (case req_body req of None \<Rightarrow> Map.empty | Some payload \<Rightarrow> payload)
       (callback_of onSuccess) s"
| "resume_record req _ fetch s = s"

fun accepts_list :: "pending \<Rightarrow> bool" where
  "accepts_list (Refreshing Overview) = False"
| "accepts_list (Refreshing r) = True"
| "accepts_list (Submitting formSelector onSuccess) = False"

fun step :: "event \<Rightarrow> page_state \<Rightarrow> page_state" where
  "step (Advance d) s = fire_intervals (fire_timeouts (s\<lparr>clock := next_instant d s\<rparr>))"
| "step (Input formSelector es) s =
     (case forms s formSelector of
        None \<Rightarrow> s
      | Some form \<Rightarrow> s\<lparr>forms := (forms s)(formSelector \<mapsto> form\<lparr>entries := es\<rparr>)\<rparr>)"
| "step (Submit formSelector) s =
     (case forms s formSelector of
        None \<Rightarrow> s
      | Some form \<Rightarrow>
          foldl (\<lambda>s (endpoint, onSuccess). submit_begin formSelector endpoint onSuccess s)
                s (listeners form))"
| "step (ListSettled i fetched) s =
     (if i < length (inflight s) \<and> accepts_list (snd (inflight s ! i))
      then resume_list (snd (inflight s ! i)) (\<lambda>req. fetched)
             (s\<lparr>inflight := without i (inflight s)\<rparr>)
      else s)"
| "step (RecordSettled i fetched) s =
     (if i < length (inflight s) \<and> \<not> accepts_list (snd (inflight s ! i))
      then resume_record (fst (inflight s ! i)) (snd (inflight s ! i)) (\<lambda>req. fetched)
             (s\<lparr>inflight := without i (inflight s)\<rparr>)
      else s)"

definition run :: "event list \<Rightarrow> page_state \<Rightarrow> page_state" where
  "run es s = foldl (\<lambda>s e. step e s) s es"

section \<open>Vocabulary of the properties\<close>

text \<open>
  The markup of a table row with the given cell contents, laid out as the row templates
  of the script lay it out, and the row that shows the named fields of a record verbatim.
\<close>

definition tr_markup :: "string list \<Rightarrow> string" where
  \<open>tr_markup cells =
     concat (map (\<lambda>c. ''\<newline>        <td>'' @ c @ ''</td>'') cells) @ ''\<newline>      ''\<close>

definition verbatim_row :: "string list \<Rightarrow> jsobj \<Rightarrow> string" where
  "verbatim_row names r = tr_markup (map (\<lambda>f. to_string (get r f)) names)"

definition tr :: "string \<Rightarrow> element" where
  "tr html = Element ''tr'' html []"

text \<open>The markup of the row that stands for an empty collection.\<close>

definition placeholder :: "string \<Rightarrow> string" where
  \<open>placeholder msg = ''<tr><td colspan="6" class="muted">'' @ msg @ ''</td></tr>''\<close>

text \<open>The table body that shows a sequence of records: a function of the sequence.\<close>

definition rendered :: "string \<Rightarrow> string \<Rightarrow> (jsobj \<Rightarrow> string) \<Rightarrow> jsobj list \<Rightarrow> element" where
  "rendered t msg row rs =
     (if rs = [] then Element t (placeholder msg) [] else Element t [] (map (\<lambda>r. tr (row r)) rs))"

text \<open>How many times a piece of markup occurs in a text.\<close>

fun occurrences :: "string \<Rightarrow> string \<Rightarrow> nat" where
  "occurrences pat [] = 0"
| "occurrences pat (c # cs) = (if prefix pat (c # cs) then 1 else 0) + occurrences pat cs"

text \<open>The fields that the columns of each table show.\<close>

definition patient_columns :: "string list" where
  "patient_columns = [''id'', ''name'', ''age'', ''gender'', ''contact'', ''created_at'']"

definition appointment_columns :: "string list" where
  "appointment_columns = [''id'', ''patient_name'', ''patient_id'', ''date'', ''time'', ''reason'', ''status'']"

definition bill_columns :: "string list" where
  "bill_columns = [''id'', ''patient_name'', ''patient_id'', ''description'', ''amount'', ''status'', ''created_at'']"

text \<open>
  The page after a saved submission, before the callback: the form that the selector
  finds is reset and the success message is shown.
\<close>

definition saved :: "string \<Rightarrow> page_state \<Rightarrow> page_state" where
  "saved formSelector s =
     showMessage ''Saved successfully.'' ''success''
       (s\<lparr>forms := (case forms s formSelector of
                        None \<Rightarrow> forms s
                      | Some form \<Rightarrow> (forms s)(formSelector \<mapsto> reset form))\<rparr>)"

section \<open>Vocabulary of the event loop properties\<close>

text \<open>A node with the given identity is among the children of the message host.\<close>

definition displayed :: "nat \<Rightarrow> page_state \<Rightarrow> bool" where
  "displayed i s = (case messageHost s of None \<Rightarrow> False | Some host \<Rightarrow> i \<in> ident ` set host)"

text \<open>
  The timers of the notifier are in order: every pending timeout is due later than now
  and within four seconds, and removes a node that was created; every node of the
  message host was created and has a timeout pending that removes it.
\<close>

definition timers_ok :: "page_state \<Rightarrow> bool" where
  "timers_ok s \<longleftrightarrow>
     (\<forall>(due, i) \<in> set (timeouts s). clock s < due \<and> due \<le> clock s + 4000 \<and> i < fresh s)
     \<and> (\<forall>item \<in> set (case messageHost s of None \<Rightarrow> [] | Some host \<Rightarrow> host).
           ident item < fresh s \<and> (\<exists>due. (due, ident item) \<in> set (timeouts s)))"

text \<open>
  The part of the page that the notifier reads and writes, and the two ways in which
  a handler other than a timer changes it: not at all, or by one call of the notifier.
\<close>

definition notices :: "page_state \<Rightarrow> flash list option \<times> (nat \<times> nat) list \<times> nat \<times> nat" where
  "notices s = (messageHost s, timeouts s, clock s, fresh s)"

definition quiet_or_shown :: "page_state \<Rightarrow> page_state \<Rightarrow> bool" where
  "quiet_or_shown s s' \<longleftrightarrow>
     notices s' = notices s \<or> (\<exists>t k. notices s' = notices (showMessage t k s))"

text \<open>
  The node with identity \<open>i0\<close> is on display exactly until the time \<open>due0\<close>, when its
  one timeout is due.
\<close>

definition tracked :: "nat \<Rightarrow> nat \<Rightarrow> page_state \<Rightarrow> bool" where
  "tracked i0 due0 s \<longleftrightarrow>
     timers_ok s \<and> i0 < fresh s
     \<and> (\<forall>(due, i) \<in> set (timeouts s). i = i0 \<longrightarrow> due = due0)
     \<and> (displayed i0 s \<longleftrightarrow> clock s < due0)
     \<and> (clock s < due0 \<longrightarrow> (due0, i0) \<in> set (timeouts s))"

text \<open>Nothing happens but the passing of time.\<close>

definition only_time_passes :: "event list \<Rightarrow> bool" where
  "only_time_passes es \<longleftrightarrow> list_all (\<lambda>e. case e of Advance d \<Rightarrow> True | _ \<Rightarrow> False) es"

text \<open>
  A page on which the script has not run yet: no interval, no request in flight, no
  submit listener.
\<close>

definition idle :: "page_state \<Rightarrow> bool" where
  "idle s \<longleftrightarrow>
     intervals s = [] \<and> inflight s = []
     \<and> (\<forall>formSelector form. forms s formSelector = Some form \<longrightarrow> listeners form = [])"


text \<open>The part of the page that says what can still run: intervals, requests, listeners.\<close>

definition wiring ::
  "page_state \<Rightarrow> (nat \<times> nat \<times> routine) list \<times> (request \<times> pending) list \<times>
     (string \<Rightarrow> (string \<times> routine option) list option)" where
  "wiring s = (intervals s, inflight s, \<lambda>formSelector. map_option listeners (forms s formSelector))"

text \<open>The routine of each of the four known page values.\<close>

fun page_routine :: "string \<Rightarrow> routine option" where
  "page_routine page =
     (if page = ''index'' then Some Overview
      else if page = ''patients'' then Some Patients
      else if page = ''appointments'' then Some Appointments
      else if page = ''billing'' then Some Bills
      else None)"

text \<open>The registered intervals: the period and the routine of each, in order.\<close>

definition schedule :: "page_state \<Rightarrow> (nat \<times> routine) list" where
  "schedule s = map (\<lambda>(period, due, r). (period, r)) (intervals s)"

text \<open>The nodes on display, and that each has its own identity, one that was created.\<close>

definition on_display :: "page_state \<Rightarrow> flash list" where
  "on_display s = (case messageHost s of None \<Rightarrow> [] | Some host \<Rightarrow> host)"

definition numbered :: "page_state \<Rightarrow> bool" where
  "numbered s \<longleftrightarrow>
     distinct (map ident (on_display s)) \<and> (\<forall>item \<in> set (on_display s). ident item < fresh s)"

text \<open>
  A page that polls and gets no answer: nothing is on display, one interval of the
  patients routine is registered and \<open>k\<close> of its requests are in flight. A page on
  which \<open>j\<close> nodes are on display and \<open>k\<close> such requests are in flight.
\<close>

definition polling :: "nat \<Rightarrow> page_state \<Rightarrow> bool" where
  "polling k s \<longleftrightarrow>
     messageHost s = Some [] \<and> timeouts s = []
     \<and> intervals s = [(7000, clock s + 7000, Patients)]
     \<and> inflight s = replicate k (get_request ''/api/patients'', Refreshing Patients)"

definition failing :: "nat \<Rightarrow> nat \<Rightarrow> page_state \<Rightarrow> bool" where
  "failing j k s \<longleftrightarrow>
     messageHost s \<noteq> None \<and> length (on_display s) = j
     \<and> inflight s = replicate k (get_request ''/api/patients'', Refreshing Patients)"

text \<open>The submit listeners of the form that a selector finds.\<close>

definition listeners_of :: "page_state \<Rightarrow> string \<Rightarrow> (string \<times> routine option) list option" where
  "listeners_of s formSelector = map_option listeners (forms s formSelector)"

section \<open>Sample data\<close>

definition sample_patient :: jsobj where
  "sample_patient =
     [''id'' \<mapsto> JNum ''3'', ''name'' \<mapsto> JStr ''Eve'', ''age'' \<mapsto> JNum ''29'',
      ''gender'' \<mapsto> JStr ''F'', ''contact'' \<mapsto> JStr ''555-0100'', ''created_at'' \<mapsto> JStr ''2024-05-02'']"

definition patient_without_contact :: jsobj where
  "patient_without_contact =
     [''id'' \<mapsto> JNum ''1'', ''name'' \<mapsto> JStr ''Ann'', ''age'' \<mapsto> JNum ''34'',
      ''gender'' \<mapsto> JStr ''F'', ''contact'' \<mapsto> JNull, ''created_at'' \<mapsto> JStr ''2024-05-01'']"

definition patient_contact_zero :: jsobj where
  "patient_contact_zero =
     [''id'' \<mapsto> JNum ''7'', ''name'' \<mapsto> JStr ''Bob'', ''age'' \<mapsto> JNum ''41'',
      ''gender'' \<mapsto> JStr ''M'', ''contact'' \<mapsto> JNum ''0'', ''created_at'' \<mapsto> JStr ''12 May'']"

definition sample_page :: page_state where
  "sample_page =
     \<lparr>messageHost = Some [],
      forms = [''form'' \<mapsto> \<lparr>entries = [(''name'', ''Ann'')], defaults = [(''name'', [])], listeners = []\<rparr>],
      tables = [''patients-body'' \<mapsto> Element ''tbody'' ''<tr><td>old</td></tr>'' [],
                ''appointments-body'' \<mapsto> Element ''tbody'' [] [tr ''<td>old</td>''],
                ''billing-body'' \<mapsto> Element ''tbody'' [] []],
      texts = [''total-patients'' \<mapsto> ''3'', ''total-appointments'' \<mapsto> ''1'',
               ''total-bills'' \<mapsto> ''2'', ''total-unpaid'' \<mapsto> ''1''],
      timeouts = [], intervals = [], inflight = [], clock = 0, fresh = 0\<rparr>"

definition rejected_with_empty_error :: "jsobj response" where
  "rejected_with_empty_error = \<lparr>ok = False, json = Inr [''error'' \<mapsto> JStr []]\<rparr>"

definition name_required :: "jsobj response" where
  "name_required = \<lparr>ok = False, json = Inr [''error'' \<mapsto> JStr ''Name required'']\<rparr>"

definition created_patient :: "jsobj response" where
  "created_patient = \<lparr>ok = True, json = Inr sample_patient\<rparr>"

text \<open>A page whose form has a control with a default value that is not blank.\<close>

definition page_with_default :: page_state where
  "page_with_default =
     sample_page\<lparr>forms := [''form'' \<mapsto>
        \<lparr>entries = [(''name'', ''Ann'')], defaults = [(''name'', ''anon'')], listeners = []\<rparr>]\<rparr>"

text \<open>
  A request that gets no response, and what happens when \<open>n\<close> polls of the patients page
  go unanswered and then all of them, with the first request, fail together.
\<close>

definition failed_fetch :: "error + jsobj list response" where
  "failed_fetch = Inl (TypeError ''Failed to fetch'')"

definition burst :: "nat \<Rightarrow> event list" where
  "burst n = replicate n (Advance 7000) @ replicate (Suc n) (ListSettled 0 failed_fetch)"

section \<open>The table renderers as functions of their input\<close>

lemma foldl_appendChild:
  "foldl (\<lambda>b x. appendChild (g x) b) (Element t h cs) xs = Element t h (cs @ map g xs)"
  by (induction xs arbitrary: cs) simp_all

lemma renderPatients_eq:
  "renderPatients ps s =
     (case tables s ''patients-body'' of
        None \<Rightarrow> s
      | Some b \<Rightarrow> s\<lparr>tables := (tables s)(''patients-body'' \<mapsto>
                      rendered (tagName b) ''No patients yet.'' patient_row ps)\<rparr>)"
proof (cases "tables s ''patients-body''")
  case None
  then show ?thesis by (simp add: renderPatients_def)
next
  case (Some b)
  then show ?thesis
    by (cases b)
       (simp add: renderPatients_def Let_def foldl_appendChild createElement_def tr_def
          placeholder_def rendered_def)
qed

lemma renderAppointments_eq:
  "renderAppointments ps s =
     (case tables s ''appointments-body'' of
        None \<Rightarrow> s
      | Some b \<Rightarrow> s\<lparr>tables := (tables s)(''appointments-body'' \<mapsto>
                      rendered (tagName b) ''No appointments yet.'' appointment_row ps)\<rparr>)"
proof (cases "tables s ''appointments-body''")
  case None
  then show ?thesis by (simp add: renderAppointments_def)
next
  case (Some b)
  then show ?thesis
    by (cases b)
       (simp add: renderAppointments_def Let_def foldl_appendChild createElement_def tr_def
          placeholder_def rendered_def)
qed

lemma renderBills_eq:
  "renderBills ps s =
     (case tables s ''billing-body'' of
        None \<Rightarrow> s
      | Some b \<Rightarrow> s\<lparr>tables := (tables s)(''billing-body'' \<mapsto>
                      rendered (tagName b) ''No billing records yet.'' bill_row ps)\<rparr>)"
proof (cases "tables s ''billing-body''")
  case None
  then show ?thesis by (simp add: renderBills_def)
next
  case (Some b)
  then show ?thesis
    by (cases b)
       (simp add: renderBills_def Let_def foldl_appendChild createElement_def tr_def
          placeholder_def rendered_def)
qed

lemma tagName_rendered: "tagName (rendered t msg row rs) = t"
  by (simp add: rendered_def)

lemma patient_row_cells:
  "patient_row p = tr_markup [to_string (get p ''id''), to_string (get p ''name''), to_string (get p ''age''),
     to_string (get p ''gender''), to_string (js_or (get p ''contact'') (JStr [])),
     to_string (get p ''created_at'')]"
  by (simp add: patient_row_def tr_markup_def)

lemma appointment_row_cells:
  "appointment_row a = tr_markup [to_string (get a ''id''),
     to_string (get a ''patient_name'') @ '' ('' @ to_string (get a ''patient_id'') @ '')'',
     to_string (get a ''date''), to_string (get a ''time''), to_string (get a ''reason''),
     to_string (get a ''status'')]"
  by (simp add: appointment_row_def tr_markup_def)

lemma bill_row_cells:
  "bill_row b = tr_markup [to_string (get b ''id''),
     to_string (get b ''patient_name'') @ '' ('' @ to_string (get b ''patient_id'') @ '')'',
     to_string (get b ''description''), to_string (get b ''amount''), to_string (get b ''status''),
     to_string (get b ''created_at'')]"
  by (simp add: bill_row_def tr_markup_def)

text \<open>
  C4. Rendering the empty sequence leaves in the table body exactly the markup of one
  row with one cell (\<^verbatim>\<open>colspan="6"\<close>, as many as a record row has cells) and no
  appended row; the message of the cell names the collection: patients, appointments
  or billing records.
\<close>

theorem empty_renders_one_placeholder_row:
  \<open>(tables s ''patients-body'' = Some b1 \<longrightarrow>
      tables (renderPatients [] s) ''patients-body'' =
        Some (Element (tagName b1) (placeholder ''No patients yet.'') []))
   \<and> (tables s ''appointments-body'' = Some b2 \<longrightarrow>
      tables (renderAppointments [] s) ''appointments-body'' =
        Some (Element (tagName b2) (placeholder ''No appointments yet.'') []))
   \<and> (tables s ''billing-body'' = Some b3 \<longrightarrow>
      tables (renderBills [] s) ''billing-body'' =
        Some (Element (tagName b3) (placeholder ''No billing records yet.'') []))
   \<and> (\<forall>msg \<in> {''No patients yet.'', ''No appointments yet.'', ''No billing records yet.''}.
        occurrences ''<tr'' (placeholder msg) = 1 \<and> occurrences ''<td'' (placeholder msg) = 1
        \<and> prefix ''<tr><td colspan="6"'' (placeholder msg))\<close>
  by (simp add: renderPatients_eq renderAppointments_eq renderBills_eq rendered_def placeholder_def)

theorem empty_renders_one_placeholder_row_witness:
  "tables (renderPatients [] sample_page) ''patients-body'' =
        Some (Element ''tbody'' (placeholder ''No patients yet.'') [])
   \<and> tables (renderAppointments [] sample_page) ''appointments-body'' =
        Some (Element ''tbody'' (placeholder ''No appointments yet.'') [])
   \<and> tables (renderBills [] sample_page) ''billing-body'' =
        Some (Element ''tbody'' (placeholder ''No billing records yet.'') [])
   \<and> occurrences ''<tr'' (placeholder ''No patients yet.'') = 1"
  using empty_renders_one_placeholder_row [of sample_page "Element ''tbody'' ''<tr><td>old</td></tr>'' []"
     "Element ''tbody'' [] [tr ''<td>old</td>'']" "Element ''tbody'' [] []"]
  by (simp add: sample_page_def)

text \<open>
  C10. A renderer leaves in its table body a content that is a function of the input
  sequence alone: the element keeps its tag, and its content is that of \<open>rendered\<close>
  whatever it was before. Rendering the same sequence a second time changes nothing.
\<close>

theorem rendering_depends_on_input_alone:
  "tables (renderPatients ps s) ''patients-body'' =
     map_option (\<lambda>b. rendered (tagName b) ''No patients yet.'' patient_row ps) (tables s ''patients-body'')
   \<and> tables (renderAppointments apps s) ''appointments-body'' =
     map_option (\<lambda>b. rendered (tagName b) ''No appointments yet.'' appointment_row apps)
       (tables s ''appointments-body'')
   \<and> tables (renderBills bs s) ''billing-body'' =
     map_option (\<lambda>b. rendered (tagName b) ''No billing records yet.'' bill_row bs) (tables s ''billing-body'')
   \<and> renderPatients ps (renderPatients ps s) = renderPatients ps s
   \<and> renderAppointments apps (renderAppointments apps s) = renderAppointments apps s
   \<and> renderBills bs (renderBills bs s) = renderBills bs s"
  by (simp add: renderPatients_eq renderAppointments_eq renderBills_eq tagName_rendered
        split: option.splits)

section \<open>The cells of a row\<close>

text \<open>
  C1, as stated, fails: a patient whose contact is \<^verbatim>\<open>null\<close>, and one whose contact is
  the number zero, get an empty contact cell, where the verbatim text of the field, as
  every other cell shows it, is \<^verbatim>\<open>null\<close> and \<^verbatim>\<open>0\<close>.
\<close>

theorem contact_not_verbatim_counterexample:
  "tables (renderPatients [patient_without_contact, patient_contact_zero] sample_page) ''patients-body'' =
     Some (Element ''tbody'' []
             [tr (tr_markup [''1'', ''Ann'', ''34'', ''F'', [], ''2024-05-01'']),
              tr (tr_markup [''7'', ''Bob'', ''41'', ''M'', [], ''12 May''])])
   \<and> verbatim_row patient_columns patient_without_contact =
       tr_markup [''1'', ''Ann'', ''34'', ''F'', ''null'', ''2024-05-01'']
   \<and> verbatim_row patient_columns patient_contact_zero =
       tr_markup [''7'', ''Bob'', ''41'', ''M'', ''0'', ''12 May'']
   \<and> patient_row patient_without_contact \<noteq> verbatim_row patient_columns patient_without_contact
   \<and> patient_row patient_contact_zero \<noteq> verbatim_row patient_columns patient_contact_zero"
  by (simp add: renderPatients_eq rendered_def sample_page_def patient_row_cells verbatim_row_def
        patient_columns_def patient_without_contact_def patient_contact_zero_def get_def js_or_def
        tr_markup_def)

text \<open>
  C1, amended. The markup of every row is its six cells, each holding the string
  conversion of its field unchanged; the second cell of an appointment or a bill holds
  the patient's name followed by the patient's identifier in parentheses; the contact
  cell of a patient is empty when the contact is falsy (missing, \<^verbatim>\<open>null\<close>,
  \<^verbatim>\<open>false\<close>, zero, not a number, or the empty string). A patient row is the verbatim
  row whenever the contact is truthy or a string.
\<close>

theorem cells_are_field_texts:
  "patient_row p =
     tr_markup [to_string (get p ''id''), to_string (get p ''name''), to_string (get p ''age''),
                to_string (get p ''gender''),
                (if truthy (get p ''contact'') then to_string (get p ''contact'') else []),
                to_string (get p ''created_at'')]
   \<and> appointment_row a =
     tr_markup [to_string (get a ''id''),
                to_string (get a ''patient_name'') @ '' ('' @ to_string (get a ''patient_id'') @ '')'',
                to_string (get a ''date''), to_string (get a ''time''), to_string (get a ''reason''),
                to_string (get a ''status'')]
   \<and> bill_row b =
     tr_markup [to_string (get b ''id''),
                to_string (get b ''patient_name'') @ '' ('' @ to_string (get b ''patient_id'') @ '')'',
                to_string (get b ''description''), to_string (get b ''amount''),
                to_string (get b ''status''), to_string (get b ''created_at'')]
   \<and> (truthy (get p ''contact'') \<longrightarrow> patient_row p = verbatim_row patient_columns p)
   \<and> (\<forall>c. get p ''contact'' = JStr c \<longrightarrow> patient_row p = verbatim_row patient_columns p)"
  by (auto simp add: patient_row_cells appointment_row_cells bill_row_cells js_or_def verbatim_row_def
        patient_columns_def)

theorem cells_are_field_texts_witness:
  "patient_row sample_patient = verbatim_row patient_columns sample_patient
   \<and> patient_row sample_patient = tr_markup [''3'', ''Eve'', ''29'', ''F'', ''555-0100'', ''2024-05-02'']"
proof -
  have contact: "truthy (get sample_patient ''contact'')"
    by (simp add: sample_patient_def get_def)
  with cells_are_field_texts [of sample_patient]
  have "patient_row sample_patient = verbatim_row patient_columns sample_patient"
    by blast
  moreover have "patient_row sample_patient =
      tr_markup [''3'', ''Eve'', ''29'', ''F'', ''555-0100'', ''2024-05-02'']"
    by (simp add: patient_row_cells sample_patient_def get_def js_or_def)
  ultimately show ?thesis by simp
qed

section \<open>One row per record\<close>

lemma tr_markup_Cons:
  "tr_markup (x # xs) = ''\<newline>        <td>'' @ x @ ''</td>'' @ tr_markup xs"
  by (simp add: tr_markup_def)

lemma sublist_in_right: "sublist c x \<Longrightarrow> sublist c (x @ ys)"
  by (simp add: sublist_append)

lemma sublist_in_left: "sublist c x \<Longrightarrow> sublist c (ps @ x)"
  by (simp add: sublist_append)

lemma sublist_tr_markup:
  "cell \<in> set cells \<Longrightarrow> sublist c cell \<Longrightarrow> sublist c (tr_markup cells)"
proof (induction cells)
  case Nil
  then show ?case by simp
next
  case (Cons x xs)
  show ?case
  proof (cases "cell = x")
    case True
    with Cons.prems have "sublist c x" by simp
    then have "sublist c (x @ ''</td>'' @ tr_markup xs)"
      by (rule sublist_in_right)
    then have "sublist c (''\<newline>        <td>'' @ x @ ''</td>'' @ tr_markup xs)"
      by (rule sublist_in_left)
    then show ?thesis by (simp only: tr_markup_Cons)
  next
    case False
    with Cons have "sublist c (tr_markup xs)" by simp
    then have "sublist c ((''\<newline>        <td>'' @ x @ ''</td>'') @ tr_markup xs)"
      by (rule sublist_in_left)
    then show ?thesis by (simp only: tr_markup_Cons append_assoc)
  qed
qed

lemma sublist_left: "sublist c (c @ ys)"
  using sublist_appendI [of c "[]" ys] by simp

lemma patient_fields_shown:
  "f \<in> set patient_columns \<Longrightarrow> (f = ''contact'' \<longrightarrow> truthy (get p f)) \<Longrightarrow>
   sublist (to_string (get p f)) (patient_row p)"
  unfolding patient_row_cells
  by (rule sublist_tr_markup [where cell = "to_string (get p f)"])
     (auto simp: patient_columns_def js_or_def)

lemma composite_cell:
  "f = ''patient_name'' \<or> f = ''patient_id'' \<Longrightarrow>
   sublist (to_string (get r f))
     (to_string (get r ''patient_name'') @ '' ('' @ to_string (get r ''patient_id'') @ '')'')"
proof (erule disjE)
  assume "f = ''patient_name''"
  then show ?thesis by (simp add: sublist_left)
next
  assume "f = ''patient_id''"
  then show ?thesis
    using sublist_appendI [of "to_string (get r ''patient_id'')"
                              "to_string (get r ''patient_name'') @ '' (''" "'')''"]
    by simp
qed

lemma appointment_fields_shown:
  assumes "f \<in> set appointment_columns"
  shows "sublist (to_string (get a f)) (appointment_row a)"
proof (cases "f = ''patient_name'' \<or> f = ''patient_id''")
  case True
  show ?thesis
    unfolding appointment_row_cells
    by (rule sublist_tr_markup [OF _ composite_cell [OF True]]) simp
next
  case False
  show ?thesis
    unfolding appointment_row_cells
    by (rule sublist_tr_markup [where cell = "to_string (get a f)"])
       (use assms False in \<open>auto simp: appointment_columns_def\<close>)
qed

lemma bill_fields_shown:
  assumes "f \<in> set bill_columns"
  shows "sublist (to_string (get b f)) (bill_row b)"
proof (cases "f = ''patient_name'' \<or> f = ''patient_id''")
  case True
  show ?thesis
    unfolding bill_row_cells
    by (rule sublist_tr_markup [OF _ composite_cell [OF True]]) simp
next
  case False
  show ?thesis
    unfolding bill_row_cells
    by (rule sublist_tr_markup [where cell = "to_string (get b f)"])
       (use assms False in \<open>auto simp: bill_columns_def\<close>)
qed

text \<open>
  C3, as stated, fails for the patients table: the row of a patient whose contact is the
  number zero has an empty contact cell, and the text of the field is nowhere in the row.
\<close>

theorem contact_zero_absent_counterexample:
  "tables (renderPatients [patient_contact_zero] sample_page) ''patients-body'' =
     Some (Element ''tbody'' [] [tr (patient_row patient_contact_zero)])
   \<and> patient_row patient_contact_zero = tr_markup [''7'', ''Bob'', ''41'', ''M'', [], ''12 May'']
   \<and> to_string (get patient_contact_zero ''contact'') = ''0''
   \<and> \<not> sublist (to_string (get patient_contact_zero ''contact'')) (patient_row patient_contact_zero)"
proof -
  have row: "patient_row patient_contact_zero = tr_markup [''7'', ''Bob'', ''41'', ''M'', [], ''12 May'']"
    by (simp add: patient_row_cells patient_contact_zero_def get_def js_or_def)
  have body: "tables (renderPatients [patient_contact_zero] sample_page) ''patients-body'' =
     Some (Element ''tbody'' [] [tr (patient_row patient_contact_zero)])"
    by (simp add: renderPatients_eq rendered_def sample_page_def)
  have shown: "to_string (get patient_contact_zero ''contact'') = ''0''"
    by (simp add: patient_contact_zero_def get_def)
  have "\<not> sublist ''0'' (tr_markup [''7'', ''Bob'', ''41'', ''M'', [], ''12 May''])"
    by code_simp
  with row body shown show ?thesis by simp
qed

text \<open>
  C3, amended. For a non-empty sequence, a renderer whose table body is in the document
  leaves in it exactly one \<^verbatim>\<open>tr\<close> per record, in the order of the sequence, and
  nothing else; the row of a record holds the text of every field of its columns,
  the contact of a patient when it is truthy.
\<close>

theorem one_row_per_record_in_order:
  "(ps \<noteq> [] \<and> tables s ''patients-body'' = Some b1 \<longrightarrow>
      tables (renderPatients ps s) ''patients-body'' =
        Some (Element (tagName b1) [] (map (\<lambda>p. tr (patient_row p)) ps)))
   \<and> (apps \<noteq> [] \<and> tables s ''appointments-body'' = Some b2 \<longrightarrow>
      tables (renderAppointments apps s) ''appointments-body'' =
        Some (Element (tagName b2) [] (map (\<lambda>a. tr (appointment_row a)) apps)))
   \<and> (bills \<noteq> [] \<and> tables s ''billing-body'' = Some b3 \<longrightarrow>
      tables (renderBills bills s) ''billing-body'' =
        Some (Element (tagName b3) [] (map (\<lambda>b. tr (bill_row b)) bills)))
   \<and> (\<forall>f \<in> set patient_columns.
        (f = ''contact'' \<longrightarrow> truthy (get p f)) \<longrightarrow> sublist (to_string (get p f)) (patient_row p))
   \<and> (\<forall>f \<in> set appointment_columns. sublist (to_string (get a f)) (appointment_row a))
   \<and> (\<forall>f \<in> set bill_columns. sublist (to_string (get b f)) (bill_row b))"
proof -
  have rows: "(ps \<noteq> [] \<and> tables s ''patients-body'' = Some b1 \<longrightarrow>
      tables (renderPatients ps s) ''patients-body'' =
        Some (Element (tagName b1) [] (map (\<lambda>p. tr (patient_row p)) ps)))
   \<and> (apps \<noteq> [] \<and> tables s ''appointments-body'' = Some b2 \<longrightarrow>
      tables (renderAppointments apps s) ''appointments-body'' =
        Some (Element (tagName b2) [] (map (\<lambda>a. tr (appointment_row a)) apps)))
   \<and> (bills \<noteq> [] \<and> tables s ''billing-body'' = Some b3 \<longrightarrow>
      tables (renderBills bills s) ''billing-body'' =
        Some (Element (tagName b3) [] (map (\<lambda>b. tr (bill_row b)) bills)))"
    by (simp add: renderPatients_eq renderAppointments_eq renderBills_eq rendered_def)
  from rows patient_fields_shown [of _ p] appointment_fields_shown [of _ a] bill_fields_shown [of _ b]
  show ?thesis by blast
qed

theorem one_row_per_record_in_order_witness:
  "tables (renderPatients [sample_patient, patient_without_contact] sample_page) ''patients-body'' =
     Some (Element ''tbody'' [] [tr (patient_row sample_patient), tr (patient_row patient_without_contact)])
   \<and> sublist ''555-0100'' (patient_row sample_patient)
   \<and> sublist ''Eve'' (patient_row sample_patient)"
  using one_row_per_record_in_order
          [of "[sample_patient, patient_without_contact]" sample_page
              "Element ''tbody'' ''<tr><td>old</td></tr>'' []" _ _ _ _ sample_patient]
  by (simp add: sample_page_def sample_patient_def patient_columns_def get_def)

section \<open>HTTP helpers\<close>

text \<open>
  C2, as stated, fails: a non-success response whose body has the error field, with the
  empty string as its value, makes \<open>postJSON\<close> fail with the generic message, though the
  field is not absent.
\<close>

theorem empty_error_field_counterexample:
  "get [''error'' \<mapsto> JStr []] ''error'' \<noteq> JUndefined
   \<and> postJSON (\<lambda>req. Inr rejected_with_empty_error) ''/api/patients'' Map.empty
       = Inl (Error ''Request failed'')
   \<and> postJSON (\<lambda>req. Inr rejected_with_empty_error) ''/api/patients'' Map.empty
       \<noteq> Inl (Error (to_string (get [''error'' \<mapsto> JStr []] ''error'')))"
  by (simp add: postJSON_def rejected_with_empty_error_def get_def js_or_def)

text \<open>
  C2, amended. \<open>getJSON\<close> fails with the message \<^verbatim>\<open>Request failed\<close> whenever the status
  is not successful and otherwise settles as parsing the body does. \<open>postJSON\<close> parses
  the body whatever the status, and fails as the parsing fails; on a non-success status
  it fails with the error field of the body when that field is truthy and with the
  generic message when it is falsy (absent, \<^verbatim>\<open>null\<close>, \<^verbatim>\<open>false\<close>, zero or the empty
  string); otherwise it gives the parsed body. Both fail as \<open>fetch\<close> fails.
\<close>

theorem http_helpers_outcomes:
  "(fetch (get_request url) = Inl e \<longrightarrow> getJSON fetch url = Inl e)
   \<and> (fetch (get_request url) = Inr r \<and> \<not> ok r \<longrightarrow> getJSON fetch url = Inl (Error ''Request failed''))
   \<and> (fetch (get_request url) = Inr r \<and> ok r \<longrightarrow> getJSON fetch url = json r)
   \<and> (post (post_request url payload) = Inl e \<longrightarrow> postJSON post url payload = Inl e)
   \<and> (post (post_request url payload) = Inr r' \<and> json r' = Inl e \<longrightarrow>
        postJSON post url payload = Inl e)
   \<and> (post (post_request url payload) = Inr r' \<and> json r' = Inr data \<and> \<not> ok r' \<and>
        truthy (get data ''error'') \<longrightarrow>
        postJSON post url payload = Inl (Error (to_string (get data ''error''))))
   \<and> (post (post_request url payload) = Inr r' \<and> json r' = Inr data \<and> \<not> ok r' \<and>
        \<not> truthy (get data ''error'') \<longrightarrow>
        postJSON post url payload = Inl (Error ''Request failed''))
   \<and> (post (post_request url payload) = Inr r' \<and> json r' = Inr data \<and> ok r' \<longrightarrow>
        postJSON post url payload = Inr data)"
  by (simp add: getJSON_def postJSON_def js_or_def)

theorem http_helpers_outcomes_witness:
  "getJSON (\<lambda>req. Inr \<lparr>ok = False, json = Inr [sample_patient]\<rparr>) ''/api/patients''
     = Inl (Error ''Request failed'')
   \<and> getJSON (\<lambda>req. Inr \<lparr>ok = True, json = Inr [sample_patient]\<rparr>) ''/api/patients''
     = Inr [sample_patient]
   \<and> postJSON (\<lambda>req. Inr name_required) ''/api/patients'' Map.empty = Inl (Error ''Name required'')
   \<and> postJSON (\<lambda>req. Inr rejected_with_empty_error) ''/api/patients'' Map.empty
     = Inl (Error ''Request failed'')
   \<and> postJSON (\<lambda>req. Inr created_patient) ''/api/patients'' Map.empty = Inr sample_patient"
proof -
  have a: "getJSON (\<lambda>req. Inr \<lparr>ok = False, json = Inr [sample_patient]\<rparr>) ''/api/patients''
     = Inl (Error ''Request failed'')
     \<and> postJSON (\<lambda>req. Inr name_required) ''/api/patients'' Map.empty = Inl (Error ''Name required'')"
    using http_helpers_outcomes
      [where fetch = "\<lambda>req. Inr \<lparr>ok = False, json = Inr [sample_patient]\<rparr>"
         and r = "\<lparr>ok = False, json = Inr [sample_patient]\<rparr>"
         and e = "Error []"
         and post = "\<lambda>req. Inr name_required" and r' = name_required
         and data = "[''error'' \<mapsto> JStr ''Name required'']" and url = "''/api/patients''"
         and payload = Map.empty]
    by (simp add: name_required_def get_def)
  have b: "getJSON (\<lambda>req. Inr \<lparr>ok = True, json = Inr [sample_patient]\<rparr>) ''/api/patients''
     = Inr [sample_patient]
     \<and> postJSON (\<lambda>req. Inr rejected_with_empty_error) ''/api/patients'' Map.empty
     = Inl (Error ''Request failed'')"
    using http_helpers_outcomes
      [where fetch = "\<lambda>req. Inr \<lparr>ok = True, json = Inr [sample_patient]\<rparr>"
         and r = "\<lparr>ok = True, json = Inr [sample_patient]\<rparr>"
         and e = "Error []"
         and post = "\<lambda>req. Inr rejected_with_empty_error" and r' = rejected_with_empty_error
         and data = "[''error'' \<mapsto> JStr []]" and url = "''/api/patients''"
         and payload = Map.empty]
    by (simp add: rejected_with_empty_error_def get_def)
  have c: "postJSON (\<lambda>req. Inr created_patient) ''/api/patients'' Map.empty = Inr sample_patient"
    using http_helpers_outcomes
      [where fetch = "\<lambda>req. Inr \<lparr>ok = True, json = Inr [sample_patient]\<rparr>"
         and r = "\<lparr>ok = True, json = Inr [sample_patient]\<rparr>"
         and e = "Error []"
         and post = "\<lambda>req. Inr created_patient" and r' = created_patient
         and data = sample_patient and url = "''/api/patients''" and payload = Map.empty]
    by (simp add: created_patient_def)
  from a b c show ?thesis by simp
qed

section \<open>What the notifier changes\<close>

lemma showMessage_eq:
  "showMessage t k s =
     (case messageHost s of
        None \<Rightarrow> s
      | Some host \<Rightarrow>
          s\<lparr>messageHost := Some (host @ [\<lparr>ident = fresh s, className = ''flash '' @ k, textContent = t\<rparr>]),
            timeouts := timeouts s @ [(clock s + 4000, fresh s)],
            fresh := Suc (fresh s)\<rparr>)"
  by (simp add: showMessage_def Let_def split: option.splits)

lemma showMessage_frame [simp]:
  "forms (showMessage t k s) = forms s"
  "tables (showMessage t k s) = tables s"
  "texts (showMessage t k s) = texts s"
  "intervals (showMessage t k s) = intervals s"
  "inflight (showMessage t k s) = inflight s"
  "clock (showMessage t k s) = clock s"
  by (simp_all add: showMessage_eq split: option.splits)

lemma showMessage_host:
  "messageHost s = Some host \<Longrightarrow>
   messageHost (showMessage t k s) =
     Some (host @ [\<lparr>ident = fresh s, className = ''flash '' @ k, textContent = t\<rparr>])"
  by (simp add: showMessage_eq)

lemma showMessage_no_host: "messageHost s = None \<Longrightarrow> showMessage t k s = s"
  by (simp add: showMessage_eq)

section \<open>Form submissions\<close>

text \<open>
  C5. When the post of a submission fails, all that the listener does is to call the
  notifier once, with the message of the failure and the kind \<^verbatim>\<open>error\<close>: no form of
  the page changes, and a page with a message host gets exactly one new node, of class
  \<^verbatim>\<open>flash error\<close>, with that message. A non-success response with the error field
  \<^verbatim>\<open>Name required\<close> is such a failure, with that text as its message.
\<close>

theorem failed_submission_keeps_form:
  "(postJSON fetch endpoint payload = Inl e \<longrightarrow>
      submit_listener fetch formSelector endpoint payload onSuccess s
        = showMessage (message e) ''error'' s
      \<and> forms (submit_listener fetch formSelector endpoint payload onSuccess s) = forms s
      \<and> (\<forall>host. messageHost s = Some host \<longrightarrow>
            messageHost (submit_listener fetch formSelector endpoint payload onSuccess s) =
              Some (host @ [\<lparr>ident = fresh s, className = ''flash error'',
                              textContent = message e\<rparr>])))
   \<and> (fetch (post_request endpoint payload) = Inr r \<and> \<not> ok r \<and> json r = Inr data \<and>
       get data ''error'' = JStr ''Name required'' \<longrightarrow>
      submit_listener fetch formSelector endpoint payload onSuccess s
        = showMessage ''Name required'' ''error'' s)"
proof -
  have "postJSON fetch endpoint payload = Inl (Error ''Name required'')"
    if "fetch (post_request endpoint payload) = Inr r" "\<not> ok r" "json r = Inr data"
       "get data ''error'' = JStr ''Name required''"
    using that by (simp add: postJSON_def js_or_def)
  then show ?thesis
    by (auto simp add: submit_listener_def showMessage_host)
qed

theorem failed_submission_keeps_form_witness:
  "submit_listener (\<lambda>req. Inr name_required) ''form'' ''/api/patients''
      (fromEntries [(''name'', ''Ann'')]) None sample_page
     = showMessage ''Name required'' ''error'' sample_page
   \<and> forms (submit_listener (\<lambda>req. Inr name_required) ''form'' ''/api/patients''
      (fromEntries [(''name'', ''Ann'')]) None sample_page) = forms sample_page
   \<and> messageHost (submit_listener (\<lambda>req. Inr name_required) ''form'' ''/api/patients''
      (fromEntries [(''name'', ''Ann'')]) None sample_page)
     = Some [\<lparr>ident = 0, className = ''flash error'', textContent = ''Name required''\<rparr>]"
proof -
  have post: "postJSON (\<lambda>req. Inr name_required) ''/api/patients'' (fromEntries [(''name'', ''Ann'')])
      = Inl (Error ''Name required'')"
    by (simp add: postJSON_def name_required_def get_def js_or_def)
  have host: "messageHost sample_page = Some []" and new: "fresh sample_page = 0"
    by (simp_all add: sample_page_def)
  from failed_submission_keeps_form
        [where fetch = "\<lambda>req. Inr name_required" and endpoint = "''/api/patients''"
           and payload = "fromEntries [(''name'', ''Ann'')]" and e = "Error ''Name required''"
           and formSelector = "''form''" and onSuccess = None and s = sample_page
           and r = name_required and data = "[''error'' \<mapsto> JStr ''Name required'']"]
       post host new
  show ?thesis by (simp add: showMessage_host)
qed

text \<open>
  C6, as stated, fails: resetting a form restores the default value of each control,
  and a control whose default is not blank is not cleared. After a saved submission the
  field with the default \<^verbatim>\<open>anon\<close> holds \<^verbatim>\<open>anon\<close>.
\<close>

theorem default_value_restored_counterexample:
  "postJSON (\<lambda>req. Inr created_patient) ''/api/patients'' (fromEntries [(''name'', ''Ann'')])
     = Inr sample_patient
   \<and> map_option entries
        (forms (submit_listener (\<lambda>req. Inr created_patient) ''form'' ''/api/patients''
                  (fromEntries [(''name'', ''Ann'')]) None page_with_default) ''form'')
     = Some [(''name'', ''anon'')]
   \<and> map snd [(''name'', ''anon'')] \<noteq> [[]]"
  by (simp add: postJSON_def created_patient_def submit_listener_def Let_def reset_def
        page_with_default_def sample_page_def)

text \<open>
  C6, amended. When the post of a submission succeeds, the listener resets the form (its
  entries become the default values, blank when these are blank), calls the notifier
  once with the success message, and then calls the callback, if there is one, on the
  payload that the server sent. A refresh routine as callback is started.
\<close>

theorem successful_submission_resets_and_notifies:
  "(postJSON fetch endpoint payload = Inr created \<longrightarrow>
      submit_listener fetch formSelector endpoint payload onSuccess s =
        (case onSuccess of
           None \<Rightarrow> saved formSelector s
         | Some callback \<Rightarrow> callback created (saved formSelector s)))
   \<and> forms (saved formSelector s) formSelector = map_option reset (forms s formSelector)
   \<and> (\<forall>form. forms s formSelector = Some form \<longrightarrow>
         map_option entries (forms (saved formSelector s) formSelector) = Some (defaults form))
   \<and> (\<forall>form. forms s formSelector = Some form \<and> (\<forall>(name, v) \<in> set (defaults form). v = []) \<longrightarrow>
         (\<forall>form'. forms (saved formSelector s) formSelector = Some form' \<longrightarrow>
            (\<forall>(name, v) \<in> set (entries form'). v = [])))
   \<and> (\<forall>host. messageHost s = Some host \<longrightarrow>
         messageHost (saved formSelector s) =
           Some (host @ [\<lparr>ident = fresh s, className = ''flash success'',
                           textContent = ''Saved successfully.''\<rparr>]))
   \<and> (\<forall>r callback. callback_of (Some r) = Some callback \<longrightarrow>
         callback created (saved formSelector s) = start r (saved formSelector s))"
  by (auto simp add: submit_listener_def saved_def Let_def showMessage_host reset_def callback_of_def
        split: option.splits)

theorem successful_submission_resets_and_notifies_witness:
  "submit_listener (\<lambda>req. Inr created_patient) ''form'' ''/api/patients''
      (fromEntries [(''name'', ''Ann'')]) (callback_of (Some Patients)) sample_page
     = start Patients (saved ''form'' sample_page)
   \<and> map_option entries (forms (saved ''form'' sample_page) ''form'') = Some [(''name'', [])]
   \<and> messageHost (saved ''form'' sample_page)
     = Some [\<lparr>ident = 0, className = ''flash success'', textContent = ''Saved successfully.''\<rparr>]"
proof -
  note facts = successful_submission_resets_and_notifies
        [where fetch = "\<lambda>req. Inr created_patient" and endpoint = "''/api/patients''"
           and payload = "fromEntries [(''name'', ''Ann'')]" and created = sample_patient
           and formSelector = "''form''" and onSuccess = "callback_of (Some Patients)"
           and s = sample_page]
  have post: "postJSON (\<lambda>req. Inr created_patient) ''/api/patients'' (fromEntries [(''name'', ''Ann'')])
      = Inr sample_patient"
    by (simp add: postJSON_def created_patient_def)
  have host: "messageHost sample_page = Some []"
    by (simp add: sample_page_def)
  have new: "fresh sample_page = 0"
    by (simp add: sample_page_def)
  have form: "forms sample_page ''form'' =
       Some \<lparr>entries = [(''name'', ''Ann'')], defaults = [(''name'', [])], listeners = []\<rparr>"
    by (simp add: sample_page_def)
  from facts post
  have "submit_listener (\<lambda>req. Inr created_patient) ''form'' ''/api/patients''
      (fromEntries [(''name'', ''Ann'')]) (callback_of (Some Patients)) sample_page
     = (case callback_of (Some Patients) of
          None \<Rightarrow> saved ''form'' sample_page
        | Some callback \<Rightarrow> callback sample_patient (saved ''form'' sample_page))"
    by blast
  then have a: "submit_listener (\<lambda>req. Inr created_patient) ''form'' ''/api/patients''
      (fromEntries [(''name'', ''Ann'')]) (callback_of (Some Patients)) sample_page
     = start Patients (saved ''form'' sample_page)"
    by (simp add: callback_of_def)
  from facts form
  have "map_option entries (forms (saved ''form'' sample_page) ''form'') =
      Some (defaults \<lparr>entries = [(''name'', ''Ann'')], defaults = [(''name'', [])], listeners = []\<rparr>)"
    by blast
  then have b: "map_option entries (forms (saved ''form'' sample_page) ''form'') = Some [(''name'', [])]"
    by simp
  from facts host
  have "messageHost (saved ''form'' sample_page) =
      Some ([] @ [\<lparr>ident = fresh sample_page, className = ''flash success'',
                    textContent = ''Saved successfully.''\<rparr>])"
    by blast
  with new have c: "messageHost (saved ''form'' sample_page)
     = Some [\<lparr>ident = 0, className = ''flash success'', textContent = ''Saved successfully.''\<rparr>]"
    by simp
  from a b c show ?thesis by simp
qed

section \<open>Failed refreshes\<close>

text \<open>
  C7. When the get of a refresh routine fails, all that the routine does is to call the
  notifier once, with the message of its collection and the kind \<^verbatim>\<open>error\<close>. That
  call leaves the table bodies, the summary texts, the forms with their listeners, the
  intervals and the requests in flight as they are, and on a page with a message host
  it adds exactly one node.
\<close>

theorem failed_refresh_keeps_content:
  "(getJSON fetch_o ''/api/overview'' = Inl e \<longrightarrow>
      refreshOverview fetch_o s = showMessage ''Unable to refresh overview.'' ''error'' s)
   \<and> (getJSON fetch ''/api/patients'' = Inl e \<longrightarrow>
      refreshPatients fetch s = showMessage ''Unable to refresh patients.'' ''error'' s)
   \<and> (getJSON fetch ''/api/appointments'' = Inl e \<longrightarrow>
      refreshAppointments fetch s = showMessage ''Unable to refresh appointments.'' ''error'' s)
   \<and> (getJSON fetch ''/api/bills'' = Inl e \<longrightarrow>
      refreshBills fetch s = showMessage ''Unable to refresh billing records.'' ''error'' s)
   \<and> tables (showMessage msg ''error'' s) = tables s
   \<and> texts (showMessage msg ''error'' s) = texts s
   \<and> forms (showMessage msg ''error'' s) = forms s
   \<and> intervals (showMessage msg ''error'' s) = intervals s
   \<and> inflight (showMessage msg ''error'' s) = inflight s
   \<and> (\<forall>host. messageHost s = Some host \<longrightarrow>
         messageHost (showMessage msg ''error'' s) =
           Some (host @ [\<lparr>ident = fresh s, className = ''flash error'', textContent = msg\<rparr>]))"
  by (simp add: refreshOverview_def refreshPatients_def refreshAppointments_def refreshBills_def
        showMessage_host)

theorem failed_refresh_keeps_content_witness:
  "refreshPatients (\<lambda>req. Inr \<lparr>ok = False, json = Inr []\<rparr>) sample_page
     = showMessage ''Unable to refresh patients.'' ''error'' sample_page
   \<and> refreshOverview (\<lambda>req. Inl (TypeError ''Failed to fetch'')) sample_page
     = showMessage ''Unable to refresh overview.'' ''error'' sample_page
   \<and> tables (refreshPatients (\<lambda>req. Inr \<lparr>ok = False, json = Inr []\<rparr>) sample_page)
     = tables sample_page
   \<and> messageHost (refreshPatients (\<lambda>req. Inr \<lparr>ok = False, json = Inr []\<rparr>) sample_page)
     = Some [\<lparr>ident = 0, className = ''flash error'', textContent = ''Unable to refresh patients.''\<rparr>]"
proof -
  have get: "getJSON (\<lambda>req. Inr \<lparr>ok = False, json = Inr ([] :: jsobj list)\<rparr>) ''/api/patients''
      = Inl (Error ''Request failed'')"
    by (simp add: getJSON_def)
  have get_o: "getJSON (\<lambda>req. Inl (TypeError ''Failed to fetch'') :: error + jsobj response)
      ''/api/overview'' = Inl (TypeError ''Failed to fetch'')"
    by (simp add: getJSON_def)
  have page: "messageHost sample_page = Some []" "fresh sample_page = 0"
    by (simp_all add: sample_page_def)
  from failed_refresh_keeps_content
         [where fetch = "\<lambda>req. Inr \<lparr>ok = False, json = Inr []\<rparr>" and e = "Error ''Request failed''"
            and s = sample_page and msg = "''Unable to refresh patients.''"
            and fetch_o = "\<lambda>req. Inr \<lparr>ok = False, json = Inr Map.empty\<rparr>"]
       failed_refresh_keeps_content
         [where fetch_o = "\<lambda>req. Inl (TypeError ''Failed to fetch'')" and e = "TypeError ''Failed to fetch''"
            and s = sample_page and msg = "''Unable to refresh overview.''"
            and fetch = "\<lambda>req. Inl (TypeError ''Failed to fetch'')"]
       get get_o page
  show ?thesis by simp
qed

section \<open>The timers of the notifier\<close>

text \<open>
  Every handler of the event loop other than the passing of time leaves the notifier's
  part of the page alone or calls the notifier once; the passing of time runs the
  timeouts that are due. Both keep the timers in order.
\<close>

lemma notices_eq_iff:
  "notices s' = notices s \<longleftrightarrow>
     messageHost s' = messageHost s \<and> timeouts s' = timeouts s \<and> clock s' = clock s \<and> fresh s' = fresh s"
  by (auto simp: notices_def)

lemma notices_showMessage_cong:
  "notices s' = notices s \<Longrightarrow> notices (showMessage t k s') = notices (showMessage t k s)"
  by (auto simp: notices_def showMessage_eq split: option.splits)

lemma foldl_notices:
  "(\<And>s x. notices (f s x) = notices s) \<Longrightarrow> notices (foldl f s xs) = notices s"
  by (induction xs arbitrary: s) simp_all

lemma notices_start [simp]: "notices (start r s) = notices s"
  by (simp add: notices_def start_def)

lemma notices_renderPatients [simp]: "notices (renderPatients ps s) = notices s"
  by (simp add: notices_def renderPatients_eq split: option.splits)

lemma notices_renderAppointments [simp]: "notices (renderAppointments ps s) = notices s"
  by (simp add: notices_def renderAppointments_eq split: option.splits)

lemma notices_renderBills [simp]: "notices (renderBills ps s) = notices s"
  by (simp add: notices_def renderBills_eq split: option.splits)

lemma notices_submit_begin [simp]: "notices (submit_begin sel ep cb s) = notices s"
  by (simp add: notices_def submit_begin_def Let_def split: option.splits)

lemma refreshPatients_notices: "quiet_or_shown s (refreshPatients fetch s)"
  by (auto simp: quiet_or_shown_def refreshPatients_def split: sum.splits)

lemma refreshAppointments_notices: "quiet_or_shown s (refreshAppointments fetch s)"
  by (auto simp: quiet_or_shown_def refreshAppointments_def split: sum.splits)

lemma refreshBills_notices: "quiet_or_shown s (refreshBills fetch s)"
  by (auto simp: quiet_or_shown_def refreshBills_def split: sum.splits)

lemma refreshOverview_notices: "quiet_or_shown s (refreshOverview fetch s)"
proof (cases "getJSON fetch ''/api/overview''")
  case (Inl e)
  then show ?thesis by (auto simp: quiet_or_shown_def refreshOverview_def)
next
  case (Inr data)
  have "notices (foldl (\<lambda>s (node_id, v).
                   case texts s node_id of
                     None \<Rightarrow> s
                   | Some node \<Rightarrow> s\<lparr>texts := (texts s)(node_id \<mapsto> text_of v)\<rparr>) s xs) = notices s" for xs
    by (rule foldl_notices) (simp add: notices_def split: prod.splits option.splits)
  moreover from Inr have "refreshOverview fetch s =
      foldl (\<lambda>s (node_id, v).
                   case texts s node_id of
                     None \<Rightarrow> s
                   | Some node \<Rightarrow> s\<lparr>texts := (texts s)(node_id \<mapsto> text_of v)\<rparr>) s
            [(''total-patients'', get data ''patients''),
             (''total-appointments'', get data ''appointments''),
             (''total-bills'', get data ''bills''),
             (''total-unpaid'', get data ''unpaid'')]"
    by (simp only: refreshOverview_def sum.case)
  ultimately have "notices (refreshOverview fetch s) = notices s" by (simp only:)
  then show ?thesis by (simp add: quiet_or_shown_def)
qed

lemma submit_listener_notices:
  "quiet_or_shown s (submit_listener fetch sel ep payload (callback_of cb) s)"
proof (cases "postJSON fetch ep payload")
  case (Inl e)
  then show ?thesis by (auto simp: quiet_or_shown_def submit_listener_def)
next
  case (Inr created)
  let ?s1 = "s\<lparr>forms := (case forms s sel of None \<Rightarrow> forms s
                           | Some form \<Rightarrow> (forms s)(sel \<mapsto> reset form))\<rparr>"
  have "notices ?s1 = notices s" by (simp add: notices_def)
  then have "notices (showMessage ''Saved successfully.'' ''success'' ?s1)
      = notices (showMessage ''Saved successfully.'' ''success'' s)"
    by (rule notices_showMessage_cong)
  with Inr show ?thesis
    by (cases cb) (auto simp: quiet_or_shown_def submit_listener_def Let_def callback_of_def)
qed

lemma foldl_remove_item:
  "foldl (\<lambda>s (due, i). remove_item i s) s xs =
     s\<lparr>messageHost := map_option (filter (\<lambda>item. ident item \<notin> snd ` set xs)) (messageHost s)\<rparr>"
proof (induction xs arbitrary: s)
  case Nil
  then show ?case by (simp add: option.map_ident)
next
  case (Cons x xs)
  obtain due i where x: "x = (due, i)" by (cases x)
  have "foldl (\<lambda>s (due, i). remove_item i s) s (x # xs) =
        foldl (\<lambda>s (due, i). remove_item i s) (remove_item i s) xs"
    by (simp add: x)
  also have "\<dots> = (remove_item i s)\<lparr>messageHost :=
        map_option (filter (\<lambda>item. ident item \<notin> snd ` set xs)) (messageHost (remove_item i s))\<rparr>"
    by (rule Cons.IH)
  also have "\<dots> = s\<lparr>messageHost :=
        map_option (filter (\<lambda>item. ident item \<notin> snd ` set (x # xs))) (messageHost s)\<rparr>"
    by (simp add: remove_item_def x option.map_comp comp_def conj_commute)
  finally show ?case .
qed

lemma fire_timeouts_eq:
  "fire_timeouts s =
     s\<lparr>timeouts := filter (\<lambda>(due, i). \<not> due \<le> clock s) (timeouts s),
       messageHost := map_option
          (filter (\<lambda>item. ident item \<notin> snd ` {x \<in> set (timeouts s). fst x \<le> clock s}))
          (messageHost s)\<rparr>"
  by (simp add: fire_timeouts_def foldl_remove_item case_prod_beta)

lemma foldl_start:
  "foldl (\<lambda>s (period, due, r). start r s) s xs =
     s\<lparr>inflight := inflight s @ map (\<lambda>(period, due, r). (get_request (endpoint_of r), Refreshing r)) xs\<rparr>"
  by (induction xs arbitrary: s) (simp_all add: start_def case_prod_beta)

lemma notices_fire_intervals [simp]: "notices (fire_intervals s) = notices s"
  by (simp add: fire_intervals_def foldl_start notices_def)

lemma timers_ok_cong: "notices s' = notices s \<Longrightarrow> timers_ok s' = timers_ok s"
  by (simp add: notices_eq_iff timers_ok_def)

lemma tracked_cong:
  assumes "notices s' = notices s"
  shows "tracked i0 due0 s' = tracked i0 due0 s"
proof -
  from assms have ok: "timers_ok s' = timers_ok s" by (rule timers_ok_cong)
  from assms have same: "messageHost s' = messageHost s" "timeouts s' = timeouts s"
      "clock s' = clock s" "fresh s' = fresh s"
    by (simp_all add: notices_eq_iff)
  show ?thesis unfolding tracked_def displayed_def ok same ..
qed

lemma quiet_or_shown_cong:
  "notices s1 = notices s \<Longrightarrow> quiet_or_shown s1 s' \<Longrightarrow> quiet_or_shown s s'"
  unfolding quiet_or_shown_def using notices_showMessage_cong by metis

lemma timers_ok_showMessage: "timers_ok s \<Longrightarrow> timers_ok (showMessage t k s)"
  unfolding timers_ok_def showMessage_eq
  by (cases "messageHost s") (auto intro: less_SucI)

lemma displayed_showMessage:
  "i0 < fresh s \<Longrightarrow> displayed i0 (showMessage t k s) = displayed i0 s"
  unfolding displayed_def showMessage_eq
  by (cases "messageHost s") auto

lemma tracked_showMessage: "tracked i0 due0 s \<Longrightarrow> tracked i0 due0 (showMessage t k s)"
proof -
  assume t: "tracked i0 due0 s"
  then have ok: "timers_ok (showMessage t k s)" and lt: "i0 < fresh s"
    by (simp_all add: tracked_def timers_ok_showMessage)
  have rest: "i0 < fresh (showMessage t k s)
     \<and> (\<forall>(due, i) \<in> set (timeouts (showMessage t k s)). i = i0 \<longrightarrow> due = due0)
     \<and> (clock (showMessage t k s) < due0 \<longrightarrow> (due0, i0) \<in> set (timeouts (showMessage t k s)))"
    using t unfolding tracked_def showMessage_eq
    by (cases "messageHost s") auto
  from t have "displayed i0 s \<longleftrightarrow> clock s < due0" by (simp add: tracked_def)
  with lt have "displayed i0 (showMessage t k s) \<longleftrightarrow> clock (showMessage t k s) < due0"
    by (simp add: displayed_showMessage)
  with ok rest show ?thesis by (simp add: tracked_def)
qed

lemma quiet_or_shown_timers_ok: "quiet_or_shown s s' \<Longrightarrow> timers_ok s \<Longrightarrow> timers_ok s'"
  unfolding quiet_or_shown_def using timers_ok_cong timers_ok_showMessage by metis

lemma quiet_or_shown_tracked: "quiet_or_shown s s' \<Longrightarrow> tracked i0 due0 s \<Longrightarrow> tracked i0 due0 s'"
  unfolding quiet_or_shown_def using tracked_cong tracked_showMessage by metis

lemma fire_timeouts_fields:
  "timeouts (fire_timeouts (s\<lparr>clock := c\<rparr>)) = filter (\<lambda>(due, i). c < due) (timeouts s)"
  "messageHost (fire_timeouts (s\<lparr>clock := c\<rparr>)) =
     map_option (filter (\<lambda>item. \<forall>due. (due, ident item) \<in> set (timeouts s) \<longrightarrow> c < due))
       (messageHost s)"
  "clock (fire_timeouts (s\<lparr>clock := c\<rparr>)) = c"
  "fresh (fire_timeouts (s\<lparr>clock := c\<rparr>)) = fresh s"
proof -
  have "filter (\<lambda>(due, i). \<not> due \<le> c) (timeouts s) = filter (\<lambda>(due, i). c < due) (timeouts s)"
    by (rule filter_cong) auto
  then show "timeouts (fire_timeouts (s\<lparr>clock := c\<rparr>)) = filter (\<lambda>(due, i). c < due) (timeouts s)"
    by (simp add: fire_timeouts_eq)
  have "filter (\<lambda>item. ident item \<notin> snd ` {x \<in> set (timeouts s). fst x \<le> c}) host
      = filter (\<lambda>item. \<forall>due. (due, ident item) \<in> set (timeouts s) \<longrightarrow> c < due) host" for host
    by (rule filter_cong) (force simp: image_iff)+
  then show "messageHost (fire_timeouts (s\<lparr>clock := c\<rparr>)) =
     map_option (filter (\<lambda>item. \<forall>due. (due, ident item) \<in> set (timeouts s) \<longrightarrow> c < due))
       (messageHost s)"
    by (cases "messageHost s") (simp_all add: fire_timeouts_eq)
  show "clock (fire_timeouts (s\<lparr>clock := c\<rparr>)) = c"
    by (simp add: fire_timeouts_eq)
  show "fresh (fire_timeouts (s\<lparr>clock := c\<rparr>)) = fresh s"
    by (simp add: fire_timeouts_eq)
qed

lemma timers_ok_fire:
  assumes ok: "timers_ok s" and later: "clock s \<le> c"
  shows "timers_ok (fire_timeouts (s\<lparr>clock := c\<rparr>))"
proof -
  let ?s' = "fire_timeouts (s\<lparr>clock := c\<rparr>)"
  have pending: "clock ?s' < due \<and> due \<le> clock ?s' + 4000 \<and> i < fresh ?s'"
    if "(due, i) \<in> set (timeouts ?s')" for due i
  proof -
    from that have mem: "(due, i) \<in> set (timeouts s)" and "c < due"
      by (auto simp: fire_timeouts_fields)
    from ok mem have "due \<le> clock s + 4000" "i < fresh s"
      by (auto simp: timers_ok_def)
    with \<open>c < due\<close> later show ?thesis by (simp add: fire_timeouts_fields)
  qed
  have shown: "ident item < fresh ?s' \<and> (\<exists>due. (due, ident item) \<in> set (timeouts ?s'))"
    if "item \<in> set (case messageHost ?s' of None \<Rightarrow> [] | Some host \<Rightarrow> host)" for item
  proof -
    from that obtain host where host: "messageHost s = Some host" and item: "item \<in> set host"
      and kept: "\<forall>due. (due, ident item) \<in> set (timeouts s) \<longrightarrow> c < due"
      by (cases "messageHost s") (auto simp: fire_timeouts_fields)
    from ok host item obtain due where "ident item < fresh s" "(due, ident item) \<in> set (timeouts s)"
      by (auto simp: timers_ok_def)
    with kept have "ident item < fresh ?s'" "(due, ident item) \<in> set (timeouts ?s')"
      by (auto simp: fire_timeouts_fields)
    then show ?thesis by blast
  qed
  from pending shown show ?thesis
    unfolding timers_ok_def by blast
qed

lemma displayed_fire:
  "displayed i0 (fire_timeouts (s\<lparr>clock := c\<rparr>)) \<longleftrightarrow>
     displayed i0 s \<and> (\<forall>due. (due, i0) \<in> set (timeouts s) \<longrightarrow> c < due)"
  unfolding displayed_def fire_timeouts_fields
  by (cases "messageHost s") auto

lemma tracked_fire:
  assumes tr: "tracked i0 due0 s" and later: "clock s \<le> c"
  shows "tracked i0 due0 (fire_timeouts (s\<lparr>clock := c\<rparr>))"
proof -
  let ?s' = "fire_timeouts (s\<lparr>clock := c\<rparr>)"
  from tr have ok: "timers_ok s" and lt: "i0 < fresh s"
    and uniq: "\<And>due. (due, i0) \<in> set (timeouts s) \<Longrightarrow> due = due0"
    and disp: "displayed i0 s \<longleftrightarrow> clock s < due0"
    and pend: "clock s < due0 \<Longrightarrow> (due0, i0) \<in> set (timeouts s)"
    by (auto simp: tracked_def)
  have 1: "timers_ok ?s'" using ok later by (rule timers_ok_fire)
  have 2: "i0 < fresh ?s'" using lt by (simp add: fire_timeouts_fields)
  have 3: "\<forall>(due, i) \<in> set (timeouts ?s'). i = i0 \<longrightarrow> due = due0"
    using uniq by (auto simp: fire_timeouts_fields)
  have 4: "displayed i0 ?s' \<longleftrightarrow> clock ?s' < due0"
  proof
    assume "displayed i0 ?s'"
    then have d: "displayed i0 s" and k: "\<forall>due. (due, i0) \<in> set (timeouts s) \<longrightarrow> c < due"
      by (simp_all add: displayed_fire)
    from d disp pend have "(due0, i0) \<in> set (timeouts s)" by simp
    with k show "clock ?s' < due0" by (simp add: fire_timeouts_fields)
  next
    assume "clock ?s' < due0"
    then have c: "c < due0" by (simp add: fire_timeouts_fields)
    with later have "clock s < due0" by simp
    with disp have "displayed i0 s" by simp
    moreover from uniq c have "\<forall>due. (due, i0) \<in> set (timeouts s) \<longrightarrow> c < due" by auto
    ultimately show "displayed i0 ?s'" by (simp add: displayed_fire)
  qed
  have 5: "clock ?s' < due0 \<longrightarrow> (due0, i0) \<in> set (timeouts ?s')"
  proof
    assume "clock ?s' < due0"
    then have c: "c < due0" by (simp add: fire_timeouts_fields)
    with later pend have "(due0, i0) \<in> set (timeouts s)" by simp
    with c show "(due0, i0) \<in> set (timeouts ?s')" by (simp add: fire_timeouts_fields)
  qed
  from 1 2 3 4 5 show ?thesis unfolding tracked_def by blast
qed

lemma next_instant_ge: "clock s \<le> next_instant d s"
  by (simp add: next_instant_def)

lemma quiet_or_shown_refl: "quiet_or_shown s s"
  by (simp add: quiet_or_shown_def)

lemma resume_list_quiet: "quiet_or_shown s (resume_list p fetch s)"
proof (cases p)
  case (Refreshing r)
  then show ?thesis
    by (cases r)
       (simp_all add: quiet_or_shown_refl refreshPatients_notices refreshAppointments_notices
          refreshBills_notices)
next
  case (Submitting sel cb)
  then show ?thesis by (simp add: quiet_or_shown_refl)
qed

lemma resume_record_quiet: "quiet_or_shown s (resume_record req p fetch s)"
proof (cases p)
  case (Refreshing r)
  then show ?thesis
    by (cases r) (simp_all add: quiet_or_shown_refl refreshOverview_notices)
next
  case (Submitting sel cb)
  then show ?thesis by (simp add: submit_listener_notices)
qed

lemma step_quiet:
  assumes "\<And>d. e \<noteq> Advance d"
  shows "quiet_or_shown s (step e s)"
proof (cases e)
  case (Advance d)
  with assms show ?thesis by blast
next
  case (Input sel es)
  then show ?thesis
    by (simp add: quiet_or_shown_def notices_def split: option.splits)
next
  case (Submit sel)
  have "notices (foldl (\<lambda>s (endpoint, onSuccess). submit_begin sel endpoint onSuccess s) s xs)
      = notices s" for xs
    by (rule foldl_notices) (simp split: prod.splits)
  with Submit show ?thesis
    by (simp add: quiet_or_shown_def split: option.splits)
next
  case (ListSettled i fetched)
  let ?s1 = "s\<lparr>inflight := without i (inflight s)\<rparr>"
  have "notices ?s1 = notices s" by (simp add: notices_def)
  then have "quiet_or_shown s (resume_list p f ?s1)" for p f
    using resume_list_quiet by (rule quiet_or_shown_cong)
  with ListSettled show ?thesis by (simp add: quiet_or_shown_refl)
next
  case (RecordSettled i fetched)
  let ?s1 = "s\<lparr>inflight := without i (inflight s)\<rparr>"
  have "notices ?s1 = notices s" by (simp add: notices_def)
  then have "quiet_or_shown s (resume_record req p f ?s1)" for req p f
    using resume_record_quiet by (rule quiet_or_shown_cong)
  with RecordSettled show ?thesis by (simp add: quiet_or_shown_refl)
qed

lemma step_Advance_notices:
  "notices (step (Advance d) s) = notices (fire_timeouts (s\<lparr>clock := next_instant d s\<rparr>))"
  by simp

lemma step_timers_ok: "timers_ok s \<Longrightarrow> timers_ok (step e s)"
proof (cases "\<exists>d. e = Advance d")
  case True
  assume ok: "timers_ok s"
  from True obtain d where e: "e = Advance d" by blast
  have "timers_ok (fire_timeouts (s\<lparr>clock := next_instant d s\<rparr>))"
    using ok next_instant_ge by (rule timers_ok_fire)
  then show ?thesis
    unfolding e using step_Advance_notices timers_ok_cong by blast
next
  case False
  assume ok: "timers_ok s"
  from False have "quiet_or_shown s (step e s)" by (intro step_quiet) blast
  then show ?thesis using ok by (rule quiet_or_shown_timers_ok)
qed

lemma step_tracked: "tracked i0 due0 s \<Longrightarrow> tracked i0 due0 (step e s)"
proof (cases "\<exists>d. e = Advance d")
  case True
  assume tr: "tracked i0 due0 s"
  from True obtain d where e: "e = Advance d" by blast
  have "tracked i0 due0 (fire_timeouts (s\<lparr>clock := next_instant d s\<rparr>))"
    using tr next_instant_ge by (rule tracked_fire)
  then show ?thesis
    unfolding e using step_Advance_notices tracked_cong by blast
next
  case False
  assume tr: "tracked i0 due0 s"
  from False have "quiet_or_shown s (step e s)" by (intro step_quiet) blast
  then show ?thesis using tr by (rule quiet_or_shown_tracked)
qed

lemma run_timers_ok: "timers_ok s \<Longrightarrow> timers_ok (run es s)"
  unfolding run_def by (induction es arbitrary: s) (simp_all add: step_timers_ok)

lemma run_tracked: "tracked i0 due0 s \<Longrightarrow> tracked i0 due0 (run es s)"
  unfolding run_def by (induction es arbitrary: s) (simp_all add: step_tracked)

lemma tracked_initial:
  assumes ok: "timers_ok s" and host: "messageHost s = Some host"
  shows "tracked (fresh s) (clock s + 4000) (showMessage t k s)"
proof -
  have 1: "timers_ok (showMessage t k s)" using ok by (rule timers_ok_showMessage)
  from ok have old: "\<And>due i. (due, i) \<in> set (timeouts s) \<Longrightarrow> i < fresh s"
    by (auto simp: timers_ok_def)
  have 2: "\<forall>(due, i) \<in> set (timeouts (showMessage t k s)). i = fresh s \<longrightarrow> due = clock s + 4000"
    using old host by (auto simp: showMessage_eq)
  have 3: "displayed (fresh s) (showMessage t k s)"
    using host by (simp add: displayed_def showMessage_eq)
  have 4: "(clock s + 4000, fresh s) \<in> set (timeouts (showMessage t k s))"
    using host by (simp add: showMessage_eq)
  have 5: "fresh s < fresh (showMessage t k s)" "clock (showMessage t k s) = clock s"
    using host by (simp_all add: showMessage_eq)
  from 1 2 3 4 5 show ?thesis unfolding tracked_def by simp
qed

lemma clock_fire_intervals: "clock (fire_intervals s) = clock s"
  using notices_fire_intervals [of s] unfolding notices_eq_iff by blast

lemma clock_Advance: "clock (step (Advance d) s) = next_instant d s"
  by (simp add: clock_fire_intervals fire_timeouts_fields)

lemma timeouts_Advance: "set (timeouts (step (Advance d) s)) \<subseteq> set (timeouts s)"
proof -
  have "timeouts (fire_intervals s') = timeouts s'" for s'
    using notices_fire_intervals [of s'] unfolding notices_eq_iff by blast
  then show ?thesis by (auto simp: fire_timeouts_fields)
qed

lemma timeouts_only_time:
  "only_time_passes es \<Longrightarrow> set (timeouts (run es s)) \<subseteq> set (timeouts s)"
proof (induction es arbitrary: s)
  case Nil
  then show ?case by (simp add: run_def)
next
  case (Cons e es)
  from Cons.prems obtain d where e: "e = Advance d" and rest: "only_time_passes es"
    by (cases e) (auto simp: only_time_passes_def)
  have "run (e # es) s = run es (step (Advance d) s)"
    by (simp add: run_def e del: step.simps)
  moreover have "set (timeouts (run es (step (Advance d) s))) \<subseteq> set (timeouts (step (Advance d) s))"
    using rest by (rule Cons.IH)
  ultimately show ?case using timeouts_Advance [of d s] by auto
qed

lemma quiet_after_four_seconds:
  assumes ok: "timers_ok s" and time: "only_time_passes es"
    and late: "clock s + 4000 \<le> clock (run es s)"
  shows "\<not> displayed i (run es s)"
proof
  assume "displayed i (run es s)"
  then obtain host item where host: "messageHost (run es s) = Some host"
    and item: "item \<in> set host"
    by (auto simp: displayed_def split: option.splits)
  have ok': "timers_ok (run es s)" using ok by (rule run_timers_ok)
  with host item obtain due where due: "(due, ident item) \<in> set (timeouts (run es s))"
    by (auto simp: timers_ok_def)
  with ok' have "clock (run es s) < due" by (auto simp: timers_ok_def)
  moreover from due timeouts_only_time [OF time, of s] have "(due, ident item) \<in> set (timeouts s)"
    by auto
  with ok have "due \<le> clock s + 4000" by (auto simp: timers_ok_def)
  ultimately show False using late by simp
qed

section \<open>What the bootstrap wires\<close>

lemma wiring_eq_iff:
  "wiring s' = wiring s \<longleftrightarrow>
     intervals s' = intervals s \<and> inflight s' = inflight s
     \<and> (\<forall>sel. map_option listeners (forms s' sel) = map_option listeners (forms s sel))"
  by (auto simp: wiring_def fun_eq_iff)


lemma wiring_showMessage [simp]: "wiring (showMessage t k s) = wiring s"
  by (simp add: wiring_def)

lemma wiring_renderPatients [simp]: "wiring (renderPatients ps s) = wiring s"
  by (simp add: wiring_def renderPatients_eq split: option.splits)

lemma wiring_renderAppointments [simp]: "wiring (renderAppointments ps s) = wiring s"
  by (simp add: wiring_def renderAppointments_eq split: option.splits)

lemma wiring_renderBills [simp]: "wiring (renderBills ps s) = wiring s"
  by (simp add: wiring_def renderBills_eq split: option.splits)

lemma wiring_refreshPatients [simp]: "wiring (refreshPatients fetch s) = wiring s"
  by (simp add: refreshPatients_def split: sum.splits)

lemma wiring_refreshAppointments [simp]: "wiring (refreshAppointments fetch s) = wiring s"
  by (simp add: refreshAppointments_def split: sum.splits)

lemma wiring_refreshBills [simp]: "wiring (refreshBills fetch s) = wiring s"
  by (simp add: refreshBills_def split: sum.splits)

lemma foldl_wiring:
  "(\<And>s x. wiring (f s x) = wiring s) \<Longrightarrow> wiring (foldl f s xs) = wiring s"
  by (induction xs arbitrary: s) simp_all

lemma wiring_refreshOverview [simp]: "wiring (refreshOverview fetch s) = wiring s"
proof (cases "getJSON fetch ''/api/overview''")
  case (Inl e)
  then show ?thesis by (simp add: refreshOverview_def)
next
  case (Inr data)
  have "wiring (foldl (\<lambda>s (node_id, v).
                   case texts s node_id of
                     None \<Rightarrow> s
                   | Some node \<Rightarrow> s\<lparr>texts := (texts s)(node_id \<mapsto> text_of v)\<rparr>) s xs) = wiring s" for xs
    by (rule foldl_wiring) (simp add: wiring_def split: prod.splits option.splits)
  moreover from Inr have "refreshOverview fetch s =
      foldl (\<lambda>s (node_id, v).
                   case texts s node_id of
                     None \<Rightarrow> s
                   | Some node \<Rightarrow> s\<lparr>texts := (texts s)(node_id \<mapsto> text_of v)\<rparr>) s
            [(''total-patients'', get data ''patients''),
             (''total-appointments'', get data ''appointments''),
             (''total-bills'', get data ''bills''),
             (''total-unpaid'', get data ''unpaid'')]"
    by (simp only: refreshOverview_def sum.case)
  ultimately show ?thesis by (simp only:)
qed


lemma wiring_start_cong: "wiring s' = wiring s \<Longrightarrow> wiring (start r s') = wiring (start r s)"
  by (simp add: wiring_eq_iff start_def)


lemma fire_intervals_eq:
  "fire_intervals s =
     s\<lparr>intervals := map (\<lambda>(period, due, r).
                           if due \<le> clock s then (period, clock s + period, r)
                           else (period, due, r))
                        (intervals s),
       inflight := inflight s @
          map (\<lambda>(period, due, r). (get_request (endpoint_of r), Refreshing r))
              (filter (\<lambda>(period, due, r). due \<le> clock s) (intervals s))\<rparr>"
  by (simp add: fire_intervals_def foldl_start)


lemma wiring_fire_timeouts [simp]: "wiring (fire_timeouts s) = wiring s"
  by (simp add: wiring_def fire_timeouts_eq)








lemma bootstrap_pages:
  "bootstrap (Some ''index'') s = setInterval Overview 5000 (start Overview s)"
  "bootstrap (Some ''patients'') s =
     setInterval Patients 7000 (start Patients (wireForm ''form'' ''/api/patients'' (Some Patients) s))"
  "bootstrap (Some ''appointments'') s =
     setInterval Appointments 7000
       (start Appointments (wireForm ''form'' ''/api/appointments'' (Some Appointments) s))"
  "bootstrap (Some ''billing'') s =
     setInterval Bills 7000 (start Bills (wireForm ''form'' ''/api/bills'' (Some Bills) s))"
  "page_routine page = None \<Longrightarrow> bootstrap (Some page) s = s"
  "bootstrap None s = s"
  by (simp_all add: bootstrap_def Let_def split: if_splits)




lemma schedule_inflight [simp]: "schedule (s\<lparr>inflight := xs\<rparr>) = schedule s"
  by (simp add: schedule_def)

lemma schedule_start [simp]: "schedule (start r s) = schedule s"
  by (simp add: schedule_def start_def)








lemma listeners_of_inflight [simp]: "listeners_of (s\<lparr>inflight := xs\<rparr>) = listeners_of s"
  by (simp add: listeners_of_def fun_eq_iff)

lemma listeners_of_start [simp]: "listeners_of (start r s) = listeners_of s"
  by (simp add: listeners_of_def start_def fun_eq_iff)

lemma listeners_of_showMessage [simp]: "listeners_of (showMessage t k s) = listeners_of s"
  by (simp add: listeners_of_def fun_eq_iff)











section \<open>Notifications under repeated polling\<close>

lemma numbered_cong: "notices s' = notices s \<Longrightarrow> numbered s' = numbered s"
  by (simp add: notices_eq_iff numbered_def on_display_def)

lemma numbered_showMessage: "numbered s \<Longrightarrow> numbered (showMessage t k s)"
  unfolding numbered_def on_display_def showMessage_eq
  by (cases "messageHost s") (auto intro: less_SucI)

lemma quiet_or_shown_numbered: "quiet_or_shown s s' \<Longrightarrow> numbered s \<Longrightarrow> numbered s'"
  unfolding quiet_or_shown_def using numbered_cong numbered_showMessage by metis

lemma numbered_fire: "numbered s \<Longrightarrow> numbered (fire_timeouts (s\<lparr>clock := c\<rparr>))"
  unfolding numbered_def on_display_def fire_timeouts_fields
  by (cases "messageHost s") (auto simp: distinct_map_filter)

lemma step_numbered: "numbered s \<Longrightarrow> numbered (step e s)"
proof (cases "\<exists>d. e = Advance d")
  case True
  assume n: "numbered s"
  from True obtain d where e: "e = Advance d" by blast
  have "numbered (fire_timeouts (s\<lparr>clock := next_instant d s\<rparr>))"
    using n by (rule numbered_fire)
  then show ?thesis
    unfolding e using step_Advance_notices numbered_cong by blast
next
  case False
  assume n: "numbered s"
  from False have "quiet_or_shown s (step e s)" by (intro step_quiet) blast
  then show ?thesis using n by (rule quiet_or_shown_numbered)
qed

lemma run_numbered: "numbered s \<Longrightarrow> numbered (run es s)"
  unfolding run_def by (induction es arbitrary: s) (simp_all add: step_numbered)

lemma display_le_pending:
  assumes "timers_ok s" and "numbered s"
  shows "length (on_display s) \<le> length (timeouts s)"
proof -
  from assms(2) have "distinct (map ident (on_display s))" by (simp add: numbered_def)
  then have "length (on_display s) = card (ident ` set (on_display s))"
    by (metis distinct_card length_map set_map)
  also have "\<dots> \<le> card (snd ` set (timeouts s))"
  proof (rule card_mono)
    show "finite (snd ` set (timeouts s))" by simp
    show "ident ` set (on_display s) \<subseteq> snd ` set (timeouts s)"
      using assms(1) unfolding timers_ok_def on_display_def by force
  qed
  also have "\<dots> \<le> card (set (timeouts s))" by (rule card_image_le) simp
  also have "\<dots> \<le> length (timeouts s)" by (rule card_length)
  finally show ?thesis .
qed

lemma run_append: "run (xs @ ys) s = run ys (run xs s)"
  by (simp add: run_def)

lemma polling_boot: "polling 1 (bootstrap (Some ''patients'') sample_page)"
  by (simp add: polling_def bootstrap_pages setInterval_def start_def wireForm_def sample_page_def)

lemma polling_step:
  assumes "polling k s"
  shows "polling (Suc k) (step (Advance 7000) s)"
proof -
  from assms have host: "messageHost s = Some []" and none: "timeouts s = []"
    and one: "intervals s = [(7000, clock s + 7000, Patients)]"
    and reqs: "inflight s = replicate k (get_request ''/api/patients'', Refreshing Patients)"
    by (simp_all add: polling_def)
  have instant: "next_instant 7000 s = clock s + 7000"
    by (simp add: next_instant_def none one)
  let ?s1 = "fire_timeouts (s\<lparr>clock := clock s + 7000\<rparr>)"
  have s1: "messageHost ?s1 = Some []" "timeouts ?s1 = []" "clock ?s1 = clock s + 7000"
    "intervals ?s1 = intervals s" "inflight ?s1 = inflight s"
    by (simp_all add: fire_timeouts_eq host none)
  have "step (Advance 7000) s = fire_intervals ?s1"
    by (simp add: instant)
  moreover have "polling (Suc k) (fire_intervals ?s1)"
    unfolding polling_def fire_intervals_eq
    by (simp add: s1 one reqs replicate_append_same)
  ultimately show ?thesis by simp
qed

lemma polling_run: "polling k s \<Longrightarrow> polling (k + n) (run (replicate n (Advance 7000)) s)"
proof (induction n arbitrary: k s)
  case 0
  then show ?case by (simp add: run_def)
next
  case (Suc n)
  from Suc.prems have "polling (Suc k) (step (Advance 7000) s)" by (rule polling_step)
  then have "polling (Suc k + n) (run (replicate n (Advance 7000)) (step (Advance 7000) s))"
    by (rule Suc.IH)
  moreover have "run (replicate (Suc n) (Advance 7000)) s =
      run (replicate n (Advance 7000)) (step (Advance 7000) s)"
    by (simp add: run_def del: step.simps)
  ultimately show ?case by simp
qed

lemma failing_step:
  assumes "failing j (Suc k) s"
  shows "failing (Suc j) k (step (ListSettled 0 failed_fetch) s)"
proof -
  from assms obtain host where host: "messageHost s = Some host" and len: "length host = j"
    and reqs: "inflight s = replicate (Suc k) (get_request ''/api/patients'', Refreshing Patients)"
    by (auto simp: failing_def on_display_def)
  let ?s1 = "s\<lparr>inflight := without 0 (inflight s)\<rparr>"
  have s1: "inflight ?s1 = replicate k (get_request ''/api/patients'', Refreshing Patients)"
    "messageHost ?s1 = Some host"
    by (simp_all add: reqs without_def host)
  have "getJSON (\<lambda>req. failed_fetch) ''/api/patients'' = Inl (TypeError ''Failed to fetch'')"
    by (simp add: getJSON_def failed_fetch_def)
  then have "step (ListSettled 0 failed_fetch) s =
      showMessage ''Unable to refresh patients.'' ''error'' ?s1"
    by (simp add: reqs refreshPatients_def)
  moreover have "failing (Suc j) k (showMessage ''Unable to refresh patients.'' ''error'' ?s1)"
    unfolding failing_def on_display_def
    by (simp add: showMessage_host [OF s1(2)] s1(1) len)
  ultimately show ?thesis by simp
qed

lemma failing_run:
  "failing j (m + k) s \<Longrightarrow> failing (j + m) k (run (replicate m (ListSettled 0 failed_fetch)) s)"
proof (induction m arbitrary: j s)
  case 0
  then show ?case by (simp add: run_def)
next
  case (Suc m)
  from Suc.prems have "failing j (Suc (m + k)) s" by simp
  then have "failing (Suc j) (m + k) (step (ListSettled 0 failed_fetch) s)"
    by (rule failing_step)
  then have "failing (Suc j + m) k
      (run (replicate m (ListSettled 0 failed_fetch)) (step (ListSettled 0 failed_fetch) s))"
    by (rule Suc.IH)
  moreover have "run (replicate (Suc m) (ListSettled 0 failed_fetch)) s =
      run (replicate m (ListSettled 0 failed_fetch)) (step (ListSettled 0 failed_fetch) s)"
    by (simp add: run_def del: step.simps)
  ultimately show ?case by simp
qed

lemma burst_displays:
  "length (on_display (run (burst n) (bootstrap (Some ''patients'') sample_page))) = Suc n"
proof -
  let ?polled = "run (replicate n (Advance 7000)) (bootstrap (Some ''patients'') sample_page)"
  have "polling (1 + n) ?polled"
    using polling_boot by (rule polling_run)
  then have "failing 0 (Suc n + 0) ?polled"
    by (simp add: polling_def failing_def on_display_def)
  then have "failing (0 + Suc n) 0 (run (replicate (Suc n) (ListSettled 0 failed_fetch)) ?polled)"
    by (rule failing_run)
  then show ?thesis
    by (simp add: failing_def burst_def run_append)
qed

text \<open>
  C9, as stated, fails in its last clause: the number of nodes on display is not bounded.
  On the patients page, ten polls that go unanswered and then fail together with the
  first request put eleven nodes on display at once.
\<close>

theorem polls_failing_together_counterexample:
  "length (on_display (run (burst 10) (bootstrap (Some ''patients'') sample_page))) = 11"
  using burst_displays [of 10] by simp

text \<open>
  C9, amended. On a page without the message host a call of the notifier changes nothing.
  On a page with it, the call appends one node and sets one timeout, due 4000 ms later,
  for that node; whatever happens on the page afterwards, the node is on display exactly
  as long as fewer than 4000 ms have passed since the call (timers run when they are
  due). The timers stay in order whatever happens: every node on display has its own
  removal pending, due within 4000 ms, so that there are at most as many nodes on display
  as removals pending, and once 4000 ms have passed with nothing happening but the
  passing of time, no node is on display. The number of nodes on display at once is not
  bounded: \<open>n\<close> polls that fail together with the first request show \<open>n + 1\<close> nodes.
\<close>

theorem notification_removed_after_timeout:
  "(messageHost s = None \<longrightarrow> showMessage text kind s = s)
   \<and> (\<forall>host. messageHost s = Some host \<longrightarrow>
         messageHost (showMessage text kind s) =
           Some (host @ [\<lparr>ident = fresh s, className = ''flash '' @ kind, textContent = text\<rparr>])
         \<and> timeouts (showMessage text kind s) = timeouts s @ [(clock s + 4000, fresh s)])
   \<and> (timers_ok s \<and> messageHost s \<noteq> None \<longrightarrow>
        (\<forall>es. displayed (fresh s) (run es (showMessage text kind s)) \<longleftrightarrow>
              clock (run es (showMessage text kind s)) < clock s + 4000))
   \<and> (timers_ok s \<longrightarrow> (\<forall>es. timers_ok (run es s)))
   \<and> (timers_ok s \<and> only_time_passes es \<and> clock s + 4000 \<le> clock (run es s) \<longrightarrow>
        (\<forall>i. \<not> displayed i (run es s)))
   \<and> (timers_ok s \<and> numbered s \<longrightarrow>
        (\<forall>es. numbered (run es s)
            \<and> length (on_display (run es s)) \<le> length (timeouts (run es s))))
   \<and> (\<forall>n. length (on_display (run (burst n) (bootstrap (Some ''patients'') sample_page)))
            = Suc n)"
proof -
  have "displayed (fresh s) (run es (showMessage text kind s)) \<longleftrightarrow>
        clock (run es (showMessage text kind s)) < clock s + 4000"
    if "timers_ok s" "messageHost s = Some host" for es host
  proof -
    from that have "tracked (fresh s) (clock s + 4000) (showMessage text kind s)"
      by (rule tracked_initial)
    then have "tracked (fresh s) (clock s + 4000) (run es (showMessage text kind s))"
      by (rule run_tracked)
    then show ?thesis by (simp add: tracked_def)
  qed
  moreover have "\<not> displayed i (run es s)"
    if "timers_ok s" "only_time_passes es" "clock s + 4000 \<le> clock (run es s)" for i
    using that by (rule quiet_after_four_seconds)
  moreover have "numbered (run es s)
      \<and> length (on_display (run es s)) \<le> length (timeouts (run es s))"
    if "timers_ok s" "numbered s" for es
    using that by (simp add: run_numbered run_timers_ok display_le_pending)
  ultimately show ?thesis
    by (auto simp add: showMessage_no_host showMessage_eq run_timers_ok burst_displays)
qed

theorem notification_removed_after_timeout_witness:
  "showMessage ''Saved successfully.'' ''success'' (sample_page\<lparr>messageHost := None\<rparr>)
     = sample_page\<lparr>messageHost := None\<rparr>
   \<and> messageHost (showMessage ''Saved successfully.'' ''success'' sample_page)
     = Some [\<lparr>ident = 0, className = ''flash success'', textContent = ''Saved successfully.''\<rparr>]
   \<and> displayed 0 (run [Advance 1000] (showMessage ''Saved successfully.'' ''success'' sample_page))
   \<and> \<not> displayed 0 (run [Advance 5000] (showMessage ''Saved successfully.'' ''success'' sample_page))
   \<and> timers_ok (run [Advance 5000] (showMessage ''Saved successfully.'' ''success'' sample_page))
   \<and> length (on_display (run [Advance 1000] (showMessage ''Saved successfully.'' ''success'' sample_page)))
       \<le> length (timeouts (run [Advance 1000] (showMessage ''Saved successfully.'' ''success'' sample_page)))
   \<and> only_time_passes [Advance 5000]
   \<and> \<not> displayed 1 (run [Advance 5000] (showMessage ''Saved successfully.'' ''success'' sample_page))"
proof -
  let ?shown = "showMessage ''Saved successfully.'' ''success'' sample_page"
  have ok: "timers_ok sample_page"
    by (simp add: timers_ok_def sample_page_def)
  have host: "messageHost sample_page = Some []" and new: "fresh sample_page = 0"
    and now: "clock sample_page = 0"
    by (simp_all add: sample_page_def)
  have idle: "intervals sample_page = []"
    by (simp add: sample_page_def)
  have pending: "timeouts ?shown = [(4000, 0)]"
    by (simp add: showMessage_eq sample_page_def)
  have early: "clock (run [Advance 1000] ?shown) = 1000"
  proof -
    have "run [Advance 1000] ?shown = step (Advance 1000) ?shown"
      by (simp add: run_def del: step.simps)
    then have "clock (run [Advance 1000] ?shown) = next_instant 1000 ?shown"
      by (simp only: clock_Advance)
    also have "\<dots> = 1000"
      by (simp add: next_instant_def pending idle now)
    finally show ?thesis .
  qed
  have late: "clock (run [Advance 5000] ?shown) = 4000"
  proof -
    have "run [Advance 5000] ?shown = step (Advance 5000) ?shown"
      by (simp add: run_def del: step.simps)
    then have "clock (run [Advance 5000] ?shown) = next_instant 5000 ?shown"
      by (simp only: clock_Advance)
    also have "\<dots> = 4000"
      by (simp add: next_instant_def pending idle now)
    finally show ?thesis .
  qed
  note fact = notification_removed_after_timeout
      [of sample_page "''Saved successfully.''" "''success''"]
  note fact' = notification_removed_after_timeout
      [of "sample_page\<lparr>messageHost := None\<rparr>" "''Saved successfully.''" "''success''"]
  from fact' have a: "showMessage ''Saved successfully.'' ''success'' (sample_page\<lparr>messageHost := None\<rparr>)
     = sample_page\<lparr>messageHost := None\<rparr>"
    by simp
  from fact host new have b: "messageHost ?shown
     = Some [\<lparr>ident = 0, className = ''flash success'', textContent = ''Saved successfully.''\<rparr>]"
    by simp
  from fact ok host have iff: "displayed (fresh sample_page) (run es ?shown) \<longleftrightarrow>
      clock (run es ?shown) < clock sample_page + 4000" for es
    by blast
  from iff [of "[Advance 1000]"] early new now
  have c: "displayed 0 (run [Advance 1000] ?shown)" by simp
  from iff [of "[Advance 5000]"] late new now
  have d: "\<not> displayed 0 (run [Advance 5000] ?shown)" by simp
  from ok have "timers_ok ?shown" by (rule timers_ok_showMessage)
  then have ok': "timers_ok ?shown" .
  with notification_removed_after_timeout [of ?shown "[]" "[]"]
  have e: "timers_ok (run [Advance 5000] ?shown)" by blast
  have time: "only_time_passes [Advance 5000]"
    by (simp add: only_time_passes_def)
  have "clock ?shown + 4000 \<le> clock (run [Advance 5000] ?shown)"
    using late now by simp
  with notification_removed_after_timeout [of ?shown "[]" "[]" "[Advance 5000]"] ok' time
  have f: "\<not> displayed 1 (run [Advance 5000] ?shown)" by blast
  have "numbered sample_page"
    by (simp add: numbered_def on_display_def sample_page_def)
  then have "numbered ?shown" by (rule numbered_showMessage)
  with notification_removed_after_timeout [of ?shown "[]" "[]" "[]"] ok'
  have g: "length (on_display (run [Advance 1000] ?shown))
      \<le> length (timeouts (run [Advance 1000] ?shown))" by blast
  from a b c d e f g time show ?thesis by blast
qed

end
